theory Spec2Isabelle
  imports Complex_Main "HOL-Library.Multiset"
begin

section \<open>Values that arrive in a request\<close>

text \<open>
  \<^verbatim>\<open>express.json\<close> and \<^verbatim>\<open>express.urlencoded({extended: true})\<close> hand the handlers
  whatever the client sent: strings, but also numbers, booleans, null, arrays and nested
  objects. A property that is absent reads as \<^verbatim>\<open>undefined\<close>. Strings are sequences of
  8-bit characters (code units 0 to 255); a number is carried by the value it parsed to,
  of which the code only ever tests whether it is zero.
\<close>

datatype jsval =
    JUndefined
  | JNull
  | JBool bool
  | JNum real
  | JStr string
  | JArr "jsval list"
  | JObj "(string \<times> jsval) list"

text \<open>\<^verbatim>\<open>!v\<close> is \<open>\<not> truthy v\<close>: undefined, null, false, 0 and the empty string are falsy.\<close>

fun truthy :: "jsval \<Rightarrow> bool" where
  "truthy JUndefined = False"
| "truthy JNull = False"
| "truthy (JBool b) = b"
| "truthy (JNum x) = (x \<noteq> 0)"
| "truthy (JStr s) = (s \<noteq> [])"
| "truthy (JArr vs) = True"
| "truthy (JObj kvs) = True"

text \<open>\<^verbatim>\<open>a || b\<close> on values.\<close>

definition js_or :: "jsval \<Rightarrow> jsval \<Rightarrow> jsval" where
  "js_or a b = (if truthy a then a else b)"

text \<open>
  \<^verbatim>\<open>a === b\<close> where \<open>b\<close> is a string or undefined (an environment variable, a stored
  identifier): arrays and objects are compared by reference and are never equal to it.
\<close>

fun strict_eq :: "jsval \<Rightarrow> jsval \<Rightarrow> bool" where
  "strict_eq (JArr vs) b = False"
| "strict_eq (JObj kvs) b = False"
| "strict_eq a b = (a = b)"

text \<open>
  A template literal \<^verbatim>\<open>`${v}`\<close> and \<^verbatim>\<open>new Date(v)\<close> convert \<open>v\<close> to a primitive. For a
  parsed object that is \<^verbatim>\<open>Object.prototype.toString\<close>, unless the object has an own
  property \<^verbatim>\<open>toString\<close> (never callable in parsed data), and then the conversion throws
  a TypeError. An array joins the conversions of its elements, one call of \<^verbatim>\<open>join\<close>
  inside the other for an array inside an array, and when the arrays are nested deeper
  than the engine's stack has room for, the conversion throws a RangeError. How deep that
  is depends on the engine and on the moment; it is a parameter, \<open>limit\<close>.
  \<open>stringifies limit v\<close> says that the conversion returns.
\<close>

fun own_toString_free :: "jsval \<Rightarrow> bool" where
  "own_toString_free (JArr vs) = list_all own_toString_free vs"
| "own_toString_free (JObj kvs) = (''toString'' \<notin> set (map fst kvs))"
| "own_toString_free v = True"

fun join_depth :: "jsval \<Rightarrow> nat" where
  "join_depth (JArr vs) = Suc (foldr max (map join_depth vs) 0)"
| "join_depth v = 0"

definition stringifies :: "nat \<Rightarrow> jsval \<Rightarrow> bool" where
  "stringifies limit v = (own_toString_free v \<and> join_depth v \<le> limit)"

text \<open>
  \<^verbatim>\<open>JSON.stringify\<close>, which \<^verbatim>\<open>res.json\<close> calls, descends into arrays and objects alike,
  and throws a RangeError on a value nested deeper than the stack has room for; again
  the depth it can reach is a parameter. \<open>serialises limit v\<close> says that it returns.
\<close>

fun json_depth :: "jsval \<Rightarrow> nat" where
  "json_depth (JArr vs) = Suc (foldr max (map json_depth vs) 0)"
| "json_depth (JObj kvs) = Suc (foldr max (map (\<lambda>kv. json_depth (snd kv)) kvs) 0)"
| "json_depth v = 0"

definition serialises :: "nat \<Rightarrow> jsval \<Rightarrow> bool" where
  "serialises limit v = (json_depth v \<le> limit)"

text \<open>
  \<^verbatim>\<open>v.trim()\<close>: the trimmed string when \<open>v\<close> is a string; on any other value that passed
  the \<^verbatim>\<open>!v\<close> test the property \<^verbatim>\<open>trim\<close> is not a function and the call throws (\<open>None\<close>).
\<close>

definition js_whitespace :: "char \<Rightarrow> bool" where
  "js_whitespace c = ((of_char c :: nat) \<in> {9, 10, 11, 12, 13, 32, 160})"

definition trim :: "string \<Rightarrow> string" where
  "trim s = rev (dropWhile js_whitespace (rev (dropWhile js_whitespace s)))"

fun js_trim :: "jsval \<Rightarrow> string option" where
  "js_trim (JStr s) = Some (trim s)"
| "js_trim v = None"

text \<open>\<^verbatim>\<open>String.prototype.toLowerCase\<close> on code units 0 to 255.\<close>

definition lower_char :: "char \<Rightarrow> char" where
  "lower_char c =
     (case map_of (zip ''ABCDEFGHIJKLMNOPQRSTUVWXYZ'' ''abcdefghijklmnopqrstuvwxyz'') c of
        Some d \<Rightarrow> d
      | None \<Rightarrow>
          (let n = (of_char c :: nat)
           in if 192 \<le> n \<and> n \<le> 222 \<and> n \<noteq> 215 then char_of (n + 32) else c))"

definition toLowerCase :: "string \<Rightarrow> string" where
  "toLowerCase s = map lower_char s"

fun js_toLowerCase :: "jsval \<Rightarrow> string option" where
  "js_toLowerCase (JStr s) = Some (toLowerCase s)"
| "js_toLowerCase v = None"

section \<open>The in-memory database\<close>

text \<open>
  A \<^verbatim>\<open>Date\<close> is either a clock reading in milliseconds, or
  \<^verbatim>\<open>new Date(`${date} ${startTime}`)\<close> of a booking submission, kept as the two values it
  was built from (how the engine parses that text is not modelled).
\<close>

datatype jsdate = Millis int | DateOfText jsval jsval

record booking =
  b_id :: string
  b_clientName :: jsval
  b_clientEmail :: jsval
  b_clientPhone :: jsval
  b_eventType :: jsval
  b_eventDate :: jsdate
  b_package :: jsval
  b_startTime :: jsval
  b_endTime :: jsval
  b_location :: jsval
  b_additionalNotes :: jsval
  b_status :: string
  b_createdAt :: int
  b_updatedAt :: "int option"

record message =
  m_id :: string
  m_name :: string
  m_email :: string
  m_phone :: "string option"
  m_subject :: jsval
  m_message :: string
  m_date :: int
  m_read :: bool
  m_archived :: bool
  m_readAt :: "int option"

text \<open>
  \<^verbatim>\<open>res.json\<close> of a record, or of a list of records, returns when each value taken
  over from a request serialises (strings, dates and booleans always do); \<open>limit\<close> is
  the depth the serialiser has left for these values.
\<close>

definition booking_values :: "booking \<Rightarrow> jsval list" where
  "booking_values b =
     [b_clientName b, b_clientEmail b, b_clientPhone b, b_eventType b, b_package b,
      b_startTime b, b_endTime b, b_location b, b_additionalNotes b]"

definition serialises_booking :: "nat \<Rightarrow> booking \<Rightarrow> bool" where
  "serialises_booking limit b = list_all (serialises limit) (booking_values b)"

definition serialises_message :: "nat \<Rightarrow> message \<Rightarrow> bool" where
  "serialises_message limit m = serialises limit (m_subject m)"

text \<open>
  \<^verbatim>\<open>let bookings = []; let messages = [];\<close> and, beside them, how many identifiers
  \<^verbatim>\<open>uuidv4()\<close> has handed out so far: the generator is a sequence \<open>gen\<close> of strings,
  read in order.
\<close>

record store =
  bookings :: "booking list"
  messages :: "message list"
  drawn :: nat

definition day_ms :: int where
  "day_ms = 24 * 60 * 60 * 1000"

definition initializeSampleData :: "(nat \<Rightarrow> string) \<Rightarrow> int \<Rightarrow> store" where
  "initializeSampleData gen t =
     \<lparr> bookings =
         [ \<lparr> b_id = gen 0, b_clientName = JStr ''John Doe'',
             b_clientEmail = JStr ''john@example.com'', b_clientPhone = JStr ''555-0101'',
             b_eventType = JStr ''Wedding'', b_eventDate = Millis (t + 7 * day_ms),
             b_package = JStr ''Premium'', b_startTime = JUndefined, b_endTime = JUndefined,
             b_location = JUndefined,
             b_additionalNotes = JStr ''Outdoor ceremony requested'',
             b_status = ''pending'', b_createdAt = t, b_updatedAt = None \<rparr>,
           \<lparr> b_id = gen 1, b_clientName = JStr ''Jane Smith'',
             b_clientEmail = JStr ''jane@example.com'', b_clientPhone = JStr ''555-0202'',
             b_eventType = JStr ''Portrait'', b_eventDate = Millis (t + 14 * day_ms),
             b_package = JStr ''Basic'', b_startTime = JUndefined, b_endTime = JUndefined,
             b_location = JUndefined, b_additionalNotes = JStr '''',
             b_status = ''confirmed'', b_createdAt = t, b_updatedAt = None \<rparr> ],
       messages =
         [ \<lparr> m_id = gen 2, m_name = ''Sarah Johnson'', m_email = ''sarah@example.com'',
             m_phone = None, m_subject = JStr ''Wedding Inquiry'',
             m_message = ''I would like information about your wedding packages.'',
             m_date = t, m_read = False, m_archived = False, m_readAt = None \<rparr>,
           \<lparr> m_id = gen 3, m_name = ''Mike Brown'', m_email = ''mike@example.com'',
             m_phone = None, m_subject = JStr ''Availability Question'',
             m_message = ''Are you available for a corporate event on June 15th?'',
             m_date = t - 2 * day_ms, m_read = True, m_archived = False,
             m_readAt = None \<rparr> ],
       drawn = 4 \<rparr>"

section \<open>Requests, responses and what the surroundings decide\<close>

text \<open>
  What a handler reads beyond the request and the two collections is given by the
  surroundings, one record per request: the clock (\<^verbatim>\<open>new Date()\<close>), whether the mail
  relay accepts the message (\<^verbatim>\<open>emailTransporter.sendMail\<close>), the token
  \<^verbatim>\<open>req.csrfToken()\<close> mints, the rate limiter's count for the client, the files on disk
  (\<open>index_error\<close> is the error \<^verbatim>\<open>res.sendFile\<close> reports for \<^verbatim>\<open>dist/index.html\<close>, if any),
  \<^verbatim>\<open>process.env\<close>, whether the session store carries out a regenerate or destroy, how
  deep the engine's stack lets a string conversion (\<open>join_limit\<close>) and
  \<^verbatim>\<open>JSON.stringify\<close> (\<open>json_limit\<close>) descend, and what \<^verbatim>\<open>decodeURIComponent\<close> makes of a
  text with percent escapes (\<open>percent_decoded\<close>, \<open>None\<close> where it throws a URIError).
\<close>

record env =
  now :: int
  mail_ok :: bool
  minted :: string
  over_limit :: bool
  public_file :: bool
  dist_file :: bool
  production :: bool
  admin_username :: jsval
  admin_password :: jsval
  session_ok :: bool
  index_error :: "string option"
  join_limit :: nat
  json_limit :: nat
  percent_decoded :: "string \<Rightarrow> string option"

text \<open>\<^verbatim>\<open>decodeURIComponent\<close>: a text without a percent sign is its own decoding.\<close>

definition decode_param :: "env \<Rightarrow> string \<Rightarrow> string option" where
  "decode_param e s = (if CHR ''%'' \<in> set s then percent_decoded e s else Some s)"

datatype http_method = GET | HEAD | POST | OPTIONS | OTHER

text \<open>
  A request after the body parsers and the session middleware: its path as sent (not
  yet decoded), split at the slashes (without the trailing slash, which the router
  ignores), the parsed query and
  body (the empty object when nothing was parsed), the \<^verbatim>\<open>admin\<close> flag of its session,
  and whether the token it presents (\<^verbatim>\<open>req.headers['x-csrf-token'] || req.body._csrf\<close>)
  verifies against the session's secret.
\<close>

record request =
  meth :: http_method
  path :: "string list"
  query :: "string \<Rightarrow> jsval"
  body :: "string \<Rightarrow> jsval"
  session_admin :: bool
  csrf_ok :: bool

text \<open>
  The bodies the handlers send, one constructor per shape, without the \<^verbatim>\<open>csrfToken\<close>
  property, which the response carries beside it:
  \<^item> \<open>ErrorBody s\<close> is \<^verbatim>\<open>{error: s}\<close>, \<open>AuthError s a\<close> is \<^verbatim>\<open>{error: s, authenticated: a}\<close>,
    \<open>TooManyRequests\<close> is \<^verbatim>\<open>{error: 'Too many requests', retryAfter}\<close>;
  \<^item> \<open>Health\<close> is the report of the health check, \<open>TokenBody t x\<close> is \<^verbatim>\<open>{token: t, expires: x}\<close>, \<open>AuthState a u\<close> is
    \<^verbatim>\<open>{authenticated: a, username: u, csrfValid: true}\<close>, \<open>LoginOk x\<close> is
    \<^verbatim>\<open>{success: true, expires: x}\<close>, \<open>Success\<close> is \<^verbatim>\<open>{success: true}\<close>;
  \<^item> \<open>ABooking b\<close> and \<open>AMessage m\<close> are the record's own properties, \<open>MessageList\<close> an
    array of messages, \<open>MarkedRead s m\<close> is \<^verbatim>\<open>{success: true, message: s, data: m}\<close>;
  \<^item> \<open>BookingsByEventDate bs\<close> is the array of the bookings \<open>bs\<close> selected for the list,
    in the order the engine's sort by parsed \<^verbatim>\<open>eventDate\<close> gives them (not modelled);
  \<^item> \<open>PrettyJson d\<close> is \<^verbatim>\<open>JSON.stringify(d, null, 2)\<close>;
  \<^item> \<open>Outcome ok s\<close> is \<^verbatim>\<open>{success: ok, message: s}\<close>, \<open>ContactSaved s i sent\<close> is
    \<^verbatim>\<open>{success: true, message: s, messageId: i, emailSent: sent}\<close>, and
    \<open>BookingSaved s i sent\<close> the same with \<^verbatim>\<open>bookingId\<close>;
  \<^item> \<open>StaticFile\<close>, \<open>IndexHtml\<close>, \<open>NotFoundPage\<close>, \<open>ErrorPage\<close> and \<open>NoContent\<close> are what
    \<^verbatim>\<open>express.static\<close>, \<^verbatim>\<open>res.sendFile\<close>, Express's own last resort and the preflight
    answer send.
\<close>

datatype export_data = OneBooking booking | AllBookings "booking list"

datatype payload =
    NoContent
  | StaticFile
  | IndexHtml
  | NotFoundPage
  | ErrorPage
  | ErrorBody string
  | AuthError string bool
  | TooManyRequests
  | TokenBody string int
  | Health
  | AuthState bool jsval
  | LoginOk int
  | Success
  | BookingsByEventDate "booking list"
  | ABooking booking
  | PrettyJson export_data
  | MessageList "message list"
  | AMessage message
  | MarkedRead string message
  | Outcome bool string
  | ContactSaved string string bool
  | BookingSaved string string bool

record response =
  status :: nat
  headers :: "(string \<times> string) list"
  payload :: payload
  csrfToken :: "string option"

text \<open>\<^verbatim>\<open>res.status(n).json(body)\<close>, with and without a \<^verbatim>\<open>csrfToken\<close> property.\<close>

definition json :: "nat \<Rightarrow> payload \<Rightarrow> response" where
  "json n p = \<lparr> status = n, headers = [], payload = p, csrfToken = None \<rparr>"

definition json_with_token :: "nat \<Rightarrow> payload \<Rightarrow> string \<Rightarrow> response" where
  "json_with_token n p t = \<lparr> status = n, headers = [], payload = p, csrfToken = Some t \<rparr>"

text \<open>An error passed to \<^verbatim>\<open>next(err)\<close>.\<close>

record err =
  err_code :: "string option"
  err_status :: "nat option"
  err_message :: string

text \<open>
  What one middleware or handler does: it calls \<^verbatim>\<open>next()\<close>, it calls \<^verbatim>\<open>next(err)\<close>, or it
  sends a response; \<open>Respond\<close> holds the response and the collections as the handler
  leaves them.
\<close>

datatype outcome = Next | Fail err | Respond response store

type_synonym handler =
  "(nat \<Rightarrow> string) \<Rightarrow> env \<Rightarrow> request \<Rightarrow> (string \<times> string) list \<Rightarrow> store \<Rightarrow> outcome"

section \<open>Middleware\<close>

text \<open>
  helmet, morgan, the two body parsers and the session middleware pass every request on
  (a request whose body does not parse or is over the size limit never reaches a handler
  and is not modelled, and the session store is taken to answer). The headers they and \<^verbatim>\<open>noCache\<close> set are not recorded: a response
  lists the headers its handler sets itself.
\<close>

definition helmet :: handler where
  "helmet gen e rq ps st = Next"

definition morgan :: handler where
  "morgan gen e rq ps st = Next"

definition express_json :: handler where
  "express_json gen e rq ps st = Next"

definition express_urlencoded :: handler where
  "express_urlencoded gen e rq ps st = Next"

definition session :: handler where
  "session gen e rq ps st = Next"

text \<open>\<^verbatim>\<open>cors(...)\<close> answers a preflight request itself, with 204.\<close>

definition cors :: handler where
  "cors gen e rq ps st = (if meth rq = OPTIONS then Respond (json 204 NoContent) st else Next)"

text \<open>\<^verbatim>\<open>express.static\<close> serves a file to GET and HEAD when the path names one.\<close>

definition static :: "(env \<Rightarrow> bool) \<Rightarrow> handler" where
  "static found gen e rq ps st =
     (if (meth rq = GET \<or> meth rq = HEAD) \<and> found e then Respond (json 200 StaticFile) st
      else Next)"

text \<open>
  \<^verbatim>\<open>csurf\<close>: GET, HEAD and OPTIONS are not verified; any other request without a token
  that verifies is passed to the error handler.
\<close>

definition bad_csrf_token :: err where
  "bad_csrf_token =
     \<lparr> err_code = Some ''EBADCSRFTOKEN'', err_status = Some 403,
       err_message = ''invalid csrf token'' \<rparr>"

definition csrfProtection :: handler where
  "csrfProtection gen e rq ps st =
     (if meth rq = GET \<or> meth rq = HEAD \<or> meth rq = OPTIONS \<or> csrf_ok rq then Next
      else Fail bad_csrf_token)"

text \<open>
  The rate limiter is mounted at \<^verbatim>\<open>/api/\<close>, so the \<^verbatim>\<open>req.path\<close> its \<^verbatim>\<open>skip\<close> reads is the
  path behind that prefix.
\<close>

definition apiLimiter :: handler where
  "apiLimiter gen e rq ps st =
     (if drop 1 (path rq) = [''api'', ''admin'', ''health''] then Next
      else if over_limit e then Respond (json 429 TooManyRequests) st
      else Next)"

definition noCache :: handler where
  "noCache gen e rq ps st = Next"

definition authenticate :: handler where
  "authenticate gen e rq ps st =
     (if \<not> session_admin rq then Respond (json 401 (AuthError ''Authentication required'' False)) st
      else Next)"

section \<open>Array methods\<close>

text \<open>\<^verbatim>\<open>Array.prototype.findIndex\<close>; \<open>None\<close> is the result -1.\<close>

fun findIndex :: "('a \<Rightarrow> bool) \<Rightarrow> 'a list \<Rightarrow> nat option" where
  "findIndex P [] = None"
| "findIndex P (x # xs) = (if P x then Some 0 else map_option Suc (findIndex P xs))"

text \<open>
  \<^verbatim>\<open>Array.prototype.sort(cmp)\<close>. The language requires the sort to be stable, so for a
  comparator that orders the elements by a key the result is the one of any stable sort:
  here insertion from the right, each element placed before the first one it does not
  have to follow.
\<close>

fun insert_cmp :: "('a \<Rightarrow> 'a \<Rightarrow> int) \<Rightarrow> 'a \<Rightarrow> 'a list \<Rightarrow> 'a list" where
  "insert_cmp cmp x [] = [x]"
| "insert_cmp cmp x (y # ys) =
     (if cmp x y \<le> 0 then x # y # ys else y # insert_cmp cmp x ys)"

definition js_sort :: "('a \<Rightarrow> 'a \<Rightarrow> int) \<Rightarrow> 'a list \<Rightarrow> 'a list" where
  "js_sort cmp xs = foldr (insert_cmp cmp) xs []"

section \<open>Route handlers\<close>

definition csrf_token_route :: handler where
  "csrf_token_route gen e rq ps st =
     Respond (json 200 (TokenBody (minted e) (now e + day_ms))) st"

definition health :: handler where
  "health gen e rq ps st = Respond (json 200 Health) st"

definition check_auth :: handler where
  "check_auth gen e rq ps st =
     Respond (json 200 (AuthState (session_admin rq)
       (if session_admin rq then admin_username e else JNull))) st"

definition login :: handler where
  "login gen e rq ps st =
     (if strict_eq (body rq ''username'') (admin_username e) \<and>
         strict_eq (body rq ''password'') (admin_password e)
      then (if \<not> session_ok e then Respond (json 500 (ErrorBody ''Session error'')) st
            else Respond (json 200 (LoginOk (now e + day_ms))) st)
      else Respond (json 401 (AuthError ''Invalid credentials'' False)) st)"

text \<open>
  Every handler body is a \<^verbatim>\<open>try { ... } catch\<close> whose catch branch answers 500. What can
  throw in the admin handlers is \<^verbatim>\<open>toLowerCase\<close> on a query value that is not a string
  and the serialisation of the answer (\<^verbatim>\<open>res.json\<close>, \<^verbatim>\<open>JSON.stringify\<close>) when a stored
  value is nested too deeply; an assignment to the collection made before the throw
  stays.
\<close>

subsection \<open>Bookings\<close>

definition list_bookings :: handler where
  "list_bookings gen e rq ps st =
     (let failed = json 500 (ErrorBody ''Failed to fetch bookings'');
          listed = (\<lambda>bs. if list_all (serialises_booking (json_limit e)) bs
                         then Respond (json 200 (BookingsByEventDate bs)) st
                         else Respond failed st)
      in if truthy (query rq ''status'') then
           (if bookings st = [] then listed []
            else
              (case js_toLowerCase (query rq ''status'') of
                 None \<Rightarrow> Respond failed st
               | Some q \<Rightarrow> listed (filter (\<lambda>b. toLowerCase (b_status b) = q) (bookings st))))
         else listed (bookings st))"

definition get_booking :: handler where
  "get_booking gen e rq ps st =
     (case find (\<lambda>b. map_of ps ''id'' = Some (b_id b)) (bookings st) of
        None \<Rightarrow> Respond (json 404 (ErrorBody ''Booking not found'')) st
      | Some booking \<Rightarrow>
          (if serialises_booking (json_limit e) booking
           then Respond (json 200 (ABooking booking)) st
           else Respond (json 500 (ErrorBody ''Failed to fetch booking'')) st))"

definition confirm_booking :: handler where
  "confirm_booking gen e rq ps st =
     (case findIndex (\<lambda>b. map_of ps ''id'' = Some (b_id b)) (bookings st) of
        None \<Rightarrow> Respond (json 404 (ErrorBody ''Booking not found'')) st
      | Some index \<Rightarrow>
          (let confirmed = (bookings st ! index)
                 \<lparr> b_status := ''confirmed'', b_updatedAt := Some (now e) \<rparr>;
               st' = st \<lparr> bookings := (bookings st)[index := confirmed] \<rparr>
           in if serialises_booking (json_limit e) confirmed
              then Respond (json_with_token 200 (ABooking confirmed) (minted e)) st'
              else Respond (json_with_token 500 (ErrorBody ''Failed to confirm booking'')
                     (minted e)) st'))"

definition download :: "string \<Rightarrow> export_data \<Rightarrow> response" where
  "download name d =
     \<lparr> status = 200,
       headers = [(''Content-Type'', ''application/json''),
                  (''Content-Disposition'', ''attachment; filename='' @ name)],
       payload = PrettyJson d, csrfToken = None \<rparr>"

text \<open>
  The two headers are set before \<^verbatim>\<open>JSON.stringify\<close> runs, so the 500 of the catch branch
  still carries them.
\<close>

definition export_failed :: "string \<Rightarrow> response" where
  "export_failed name =
     (json 500 (ErrorBody ''Export failed''))
       \<lparr> headers := [(''Content-Type'', ''application/json''),
                     (''Content-Disposition'', ''attachment; filename='' @ name)] \<rparr>"

definition export_bookings :: handler where
  "export_bookings gen e rq ps st =
     (if truthy (query rq ''id'') then
        (case find (\<lambda>b. strict_eq (query rq ''id'') (JStr (b_id b))) (bookings st) of
           None \<Rightarrow> Respond (json 404 (ErrorBody ''Booking not found'')) st
         | Some booking \<Rightarrow>
             (let name = ''booking-'' @ b_id booking @ ''.json''
              in if serialises_booking (json_limit e) booking
                 then Respond (download name (OneBooking booking)) st
                 else Respond (export_failed name) st))
      else
        (if list_all (serialises_booking (json_limit e)) (bookings st)
         then Respond (download ''bookings.json'' (AllBookings (bookings st))) st
         else Respond (export_failed ''bookings.json'') st))"

subsection \<open>Messages\<close>

definition list_messages :: handler where
  "list_messages gen e rq ps st =
     (let all_messages = messages st;
          shown = (if query rq ''includeArchived'' \<noteq> JStr ''true''
                   then filter (\<lambda>m. \<not> m_archived m) all_messages else all_messages);
          wanted = (if query rq ''unread'' = JStr ''true''
                    then filter (\<lambda>m. \<not> m_read m) shown else shown);
          ordered = js_sort (\<lambda>a b. m_date b - m_date a) wanted
      in if list_all (serialises_message (json_limit e)) ordered
         then Respond (json 200 (MessageList ordered)) st
         else Respond (json 500 (ErrorBody ''Failed to fetch messages'')) st)"

definition get_message :: handler where
  "get_message gen e rq ps st =
     (case findIndex (\<lambda>m. map_of ps ''id'' = Some (m_id m)) (messages st) of
        None \<Rightarrow> Respond (json 404 (ErrorBody ''Message not found'')) st
      | Some index \<Rightarrow>
          (let seen = (messages st ! index) \<lparr> m_read := True, m_readAt := Some (now e) \<rparr>;
               st' = st \<lparr> messages := (messages st)[index := seen] \<rparr>
           in if serialises_message (json_limit e) seen
              then Respond (json 200 (AMessage seen)) st'
              else Respond (json 500 (ErrorBody ''Failed to fetch message'')) st'))"

definition mark_read :: handler where
  "mark_read gen e rq ps st =
     (case findIndex (\<lambda>m. map_of ps ''id'' = Some (m_id m)) (messages st) of
        None \<Rightarrow> Respond (json 404 (ErrorBody ''Message not found'')) st
      | Some index \<Rightarrow>
          (let seen = (messages st ! index) \<lparr> m_read := True, m_readAt := Some (now e) \<rparr>;
               st' = st \<lparr> messages := (messages st)[index := seen] \<rparr>
           in if serialises_message (json_limit e) seen
              then Respond (json_with_token 200 (MarkedRead ''Message marked as read'' seen)
                     (minted e)) st'
              else Respond (json_with_token 500 (ErrorBody ''Failed to mark message as read'')
                     (minted e)) st'))"

definition logout :: handler where
  "logout gen e rq ps st =
     (if \<not> session_ok e then Respond (json 500 (ErrorBody ''Logout failed'')) st
      else Respond (json 200 Success) st)"

subsection \<open>Public submissions\<close>

text \<open>
  Both handlers run inside \<^verbatim>\<open>try { ... } catch\<close>: an error thrown on the way (a
  \<^verbatim>\<open>trim\<close> on a value that is not a string, a value that does not convert to a string
  in a template) ends in the 500 response, with the collections as they are at that
  point. The new record's \<^verbatim>\<open>id: uuidv4()\<close> is evaluated first. The bodies of the 201
  and 500 responses hold strings and booleans only and always serialise.
\<close>

definition submit_contact :: handler where
  "submit_contact gen e rq ps st =
     (let name = body rq ''name''; email = body rq ''email''; phone = body rq ''phone'';
          subject = body rq ''subject''; message = body rq ''message''
      in if \<not> truthy name \<or> \<not> truthy email \<or> \<not> truthy message then
           Respond (json_with_token 400
             (Outcome False ''Missing required fields (name, email, message)'') (minted e)) st
         else
           (let st1 = st \<lparr> drawn := Suc (drawn st) \<rparr>;
                failed = json_with_token 500 (Outcome False ''Failed to send message'') (minted e)
            in case (js_trim name, js_trim email,
                     if truthy phone then js_trim phone else Some [], js_trim message) of
                 (Some n, Some a, Some p, Some m) \<Rightarrow>
                   (let newMessage =
                          \<lparr> m_id = gen (drawn st), m_name = n, m_email = a, m_phone = Some p,
                            m_subject = js_or subject (JStr ''General Inquiry''),
                            m_message = m, m_date = now e, m_read = False,
                            m_archived = False, m_readAt = None \<rparr>;
                        st2 = st1 \<lparr> messages := messages st1 @ [newMessage] \<rparr>
                    in if stringifies (join_limit e) (js_or subject (JStr ''General Inquiry'')) then
                         Respond (json_with_token 201
                           (ContactSaved ''Message sent successfully!'' (m_id newMessage)
                              (mail_ok e)) (minted e)) st2
                       else Respond failed st2)
               | _ \<Rightarrow> Respond failed st1))"

definition submit_booking :: handler where
  "submit_booking gen e rq ps st =
     (let name = body rq ''name''; email = body rq ''email''; phone = body rq ''phone'';
          eventType = body rq ''eventType''; date = body rq ''date'';
          packageType = body rq ''package''; startTime = body rq ''startTime'';
          endTime = body rq ''endTime''; location = body rq ''location'';
          details = body rq ''details''
      in if \<not> truthy name \<or> \<not> truthy email \<or> \<not> truthy phone \<or> \<not> truthy eventType \<or>
            \<not> truthy date \<or> \<not> truthy packageType \<or> \<not> truthy startTime \<or>
            \<not> truthy endTime \<or> \<not> truthy location then
           Respond (json_with_token 400 (Outcome False ''Missing required fields'') (minted e)) st
         else
           (let st1 = st \<lparr> drawn := Suc (drawn st) \<rparr>;
                failed = json_with_token 500 (Outcome False ''Failed to process booking'')
                           (minted e)
            in if \<not> (stringifies (join_limit e) date \<and> stringifies (join_limit e) startTime)
               then Respond failed st1
               else
                 (let newBooking =
                        \<lparr> b_id = gen (drawn st), b_clientName = name, b_clientEmail = email,
                          b_clientPhone = phone, b_eventType = eventType,
                          b_eventDate = DateOfText date startTime, b_package = packageType,
                          b_startTime = startTime, b_endTime = endTime, b_location = location,
                          b_additionalNotes = js_or details (JStr []),
                          b_status = ''pending'', b_createdAt = now e, b_updatedAt = None \<rparr>;
                      st2 = st1 \<lparr> bookings := bookings st1 @ [newBooking] \<rparr>
                  in if list_all (stringifies (join_limit e))
                          [name, eventType, endTime, location, packageType,
                           js_or details (JStr ''None'')] then
                       Respond (json_with_token 201
                         (BookingSaved ''Booking request received successfully!''
                            (b_id newBooking) (mail_ok e)) (minted e)) st2
                     else Respond failed st2)))"

subsection \<open>After the routes\<close>

text \<open>
  \<^verbatim>\<open>res.sendFile\<close> of \<^verbatim>\<open>dist/index.html\<close>: the file is sent, or the error of reading it
  (status 404 when it does not exist) is passed to \<^verbatim>\<open>next\<close>.
\<close>

definition index_html :: handler where
  "index_html gen e rq ps st =
     (case index_error e of
        None \<Rightarrow> Respond (json 200 IndexHtml) st
      | Some msg \<Rightarrow>
          Fail \<lparr> err_code = Some ''ENOENT'', err_status = Some 404, err_message = msg \<rparr>)"

definition api_not_found :: handler where
  "api_not_found gen e rq ps st = Respond (json 404 (ErrorBody ''Endpoint not found'')) st"

definition error_handler :: "err \<Rightarrow> env \<Rightarrow> request \<Rightarrow> response" where
  "error_handler er e rq =
     (if err_code er = Some ''EBADCSRFTOKEN'' then
        json_with_token 403 (ErrorBody ''Invalid CSRF token'') (minted e)
      else
        json (case err_status er of None \<Rightarrow> 500 | Some n \<Rightarrow> if n = 0 then 500 else n)
          (ErrorBody (if err_message er = [] then ''Internal server error''
                      else err_message er)))"

section \<open>The application: layers in the order they are registered\<close>

text \<open>
  Express keeps the middleware and routes in one list and offers a request to each in
  turn. \<^verbatim>\<open>app.use(prefix, ...)\<close> matches every method and every path under the prefix;
  \<^verbatim>\<open>app.get\<close> and \<^verbatim>\<open>app.post\<close> match their method (a GET route also serves HEAD) and the
  whole path, literal segments without regard to case, a \<^verbatim>\<open>:name\<close> segment binding a
  parameter to any non-empty segment and \<^verbatim>\<open>*\<close> binding the whole path. The first handler
  that responds ends the request.

  A route is matched against the path as sent, before its method is looked at; what a
  parameter captured is then passed through \<^verbatim>\<open>decodeURIComponent\<close>. When that throws,
  the router holds an error with status 400 and the message
  \<^verbatim>\<open>Failed to decode param '...'\<close> (quoting the captured text), and offers the request
  to the error-handling middleware only.
\<close>

datatype seg = Lit string | Param string

datatype pattern = Segs "seg list" | Star

datatype matched = NoMatch | DecodeError string | Match "(string \<times> string) list"

fun match_segs :: "env \<Rightarrow> seg list \<Rightarrow> string list \<Rightarrow> matched" where
  "match_segs e [] [] = Match []"
| "match_segs e (Lit s # ss) (x # xs) =
     (if toLowerCase x = s then match_segs e ss xs else NoMatch)"
| "match_segs e (Param k # ss) (x # xs) =
     (if x = [] then NoMatch
      else
        (case match_segs e ss xs of
           NoMatch \<Rightarrow> NoMatch
         | DecodeError later \<Rightarrow>
             (case decode_param e x of
                None \<Rightarrow> DecodeError x
              | Some v \<Rightarrow> DecodeError later)
         | Match ps \<Rightarrow>
             (case decode_param e x of
                None \<Rightarrow> DecodeError x
              | Some v \<Rightarrow> Match ((k, v) # ps))))"
| "match_segs e ss xs = NoMatch"

text \<open>The path as it was sent (but for a trailing slash).\<close>

definition raw_path :: "string list \<Rightarrow> string" where
  "raw_path xs = (if xs = [] then ''/'' else concat (map (\<lambda>x. CHR ''/'' # x) xs))"

fun match_pattern :: "env \<Rightarrow> pattern \<Rightarrow> string list \<Rightarrow> matched" where
  "match_pattern e Star xs =
     (case decode_param e (raw_path xs) of
        None \<Rightarrow> DecodeError (raw_path xs)
      | Some v \<Rightarrow> Match [(''0'', v)])"
| "match_pattern e (Segs ss) xs = match_segs e ss xs"

fun has_prefix :: "string list \<Rightarrow> string list \<Rightarrow> bool" where
  "has_prefix [] xs = True"
| "has_prefix (s # ss) [] = False"
| "has_prefix (s # ss) (x # xs) = (toLowerCase x = s \<and> has_prefix ss xs)"

datatype layer =
    Use "string list" "handler list"
  | Route http_method pattern "handler list"
  | OnError "err \<Rightarrow> env \<Rightarrow> request \<Rightarrow> response"

fun layer_params :: "env \<Rightarrow> layer \<Rightarrow> request \<Rightarrow> matched" where
  "layer_params e (Use pre hs) rq = (if has_prefix pre (path rq) then Match [] else NoMatch)"
| "layer_params e (Route m pat hs) rq =
     (case match_pattern e pat (path rq) of
        NoMatch \<Rightarrow> NoMatch
      | DecodeError v \<Rightarrow> DecodeError v
      | Match ps \<Rightarrow>
          (if meth rq = m \<or> (m = GET \<and> meth rq = HEAD) then Match ps else NoMatch))"
| "layer_params e (OnError h) rq = NoMatch"

fun layer_handlers :: "layer \<Rightarrow> handler list" where
  "layer_handlers (Use pre hs) = hs"
| "layer_handlers (Route m pat hs) = hs"
| "layer_handlers (OnError h) = []"

fun run_chain :: "handler list \<Rightarrow> handler" where
  "run_chain [] gen e rq ps st = Next"
| "run_chain (h # hs) gen e rq ps st =
     (case h gen e rq ps st of
        Next \<Rightarrow> run_chain hs gen e rq ps st
      | Fail er \<Rightarrow> Fail er
      | Respond r st' \<Rightarrow> Respond r st')"

text \<open>
  After \<^verbatim>\<open>next(err)\<close> only error-handling middleware registered later is offered the
  request; with none left, Express answers with its own error page.
\<close>

fun recover :: "layer list \<Rightarrow> err \<Rightarrow> env \<Rightarrow> request \<Rightarrow> response" where
  "recover [] er e rq =
     json (case err_status er of None \<Rightarrow> 500 | Some n \<Rightarrow> n) ErrorPage"
| "recover (OnError h # ls) er e rq = h er e rq"
| "recover (l # ls) er e rq = recover ls er e rq"

definition uri_error :: "string \<Rightarrow> err" where
  "uri_error v =
     \<lparr> err_code = None, err_status = Some 400,
       err_message = ''Failed to decode param '' @ [CHR 0x27] @ v @ [CHR 0x27] \<rparr>"

fun dispatch ::
  "layer list \<Rightarrow> (nat \<Rightarrow> string) \<Rightarrow> env \<Rightarrow> request \<Rightarrow> store \<Rightarrow> response \<times> store" where
  "dispatch [] gen e rq st = (json 404 NotFoundPage, st)"
| "dispatch (l # ls) gen e rq st =
     (case layer_params e l rq of
        NoMatch \<Rightarrow> dispatch ls gen e rq st
      | DecodeError v \<Rightarrow> (recover ls (uri_error v) e rq, st)
      | Match ps \<Rightarrow>
          (case run_chain (layer_handlers l) gen e rq ps st of
             Next \<Rightarrow> dispatch ls gen e rq st
           | Fail er \<Rightarrow> (recover ls er e rq, st)
           | Respond r st' \<Rightarrow> (r, st')))"

definition layers :: "env \<Rightarrow> layer list" where
  "layers e =
     [ Use [] [helmet],
       Use [] [morgan],
       Use [] [cors],
       Route OPTIONS Star [cors],
       Use [] [express_json],
       Use [] [express_urlencoded],
       Use [] [static public_file],
       Use [] [session],
       Route GET (Segs [Lit ''api'', Lit ''csrf-token'']) [csrfProtection, csrf_token_route],
       Route GET (Segs [Lit ''csrf-token'']) [csrfProtection, csrf_token_route],
       Use [''api''] [apiLimiter],
       Route GET (Segs [Lit ''api'', Lit ''admin'', Lit ''health'']) [health],
       Route GET (Segs [Lit ''api'', Lit ''admin'', Lit ''check-auth'']) [noCache, check_auth],
       Route POST (Segs [Lit ''api'', Lit ''admin'', Lit ''login'']) [noCache, login],
       Use [''api'', ''admin''] [authenticate, noCache],
       Route GET (Segs [Lit ''api'', Lit ''admin'', Lit ''bookings'']) [list_bookings],
       Route GET (Segs [Lit ''api'', Lit ''admin'', Lit ''bookings'', Param ''id''])
         [get_booking],
       Route POST (Segs [Lit ''api'', Lit ''admin'', Lit ''bookings'', Param ''id'',
         Lit ''confirm'']) [csrfProtection, confirm_booking],
       Route GET (Segs [Lit ''api'', Lit ''admin'', Lit ''bookings'', Lit ''export''])
         [export_bookings],
       Route GET (Segs [Lit ''api'', Lit ''admin'', Lit ''messages'']) [list_messages],
       Route GET (Segs [Lit ''api'', Lit ''admin'', Lit ''messages'', Param ''id''])
         [get_message],
       Route POST (Segs [Lit ''api'', Lit ''admin'', Lit ''messages'', Param ''id'',
         Lit ''mark-read'']) [csrfProtection, mark_read],
       Route POST (Segs [Lit ''api'', Lit ''admin'', Lit ''logout'']) [logout],
       Route POST (Segs [Lit ''api'', Lit ''submit-contact'']) [csrfProtection, submit_contact],
       Route POST (Segs [Lit ''submit-booking'']) [csrfProtection, submit_booking] ]
     @ (if production e
        then [Use [] [static dist_file], Route GET Star [index_html]] else [])
     @ [ Use [''api''] [api_not_found],
         OnError error_handler ]"

text \<open>One request against the running server: the response and the collections after it.\<close>

definition app :: "(nat \<Rightarrow> string) \<Rightarrow> env \<Rightarrow> request \<Rightarrow> store \<Rightarrow> response \<times> store" where
  "app gen e rq st = dispatch (layers e) gen e rq st"

section \<open>Reachable states, and the inputs the submission handlers accept\<close>

text \<open>
  The server starts from the sample data and then serves requests, one after the other,
  each under its own surroundings.
\<close>

inductive reachable :: "(nat \<Rightarrow> string) \<Rightarrow> store \<Rightarrow> bool" for gen :: "nat \<Rightarrow> string" where
  boot: "reachable gen (initializeSampleData gen t)"
| request: "reachable gen st \<Longrightarrow> reachable gen (snd (app gen e rq st))"

text \<open>Every identifier in the collections is one the generator has already handed out.\<close>

definition ids_drawn :: "(nat \<Rightarrow> string) \<Rightarrow> store \<Rightarrow> bool" where
  "ids_drawn gen st =
     (set (map b_id (bookings st)) \<subseteq> gen ` {..<drawn st} \<and>
      set (map m_id (messages st)) \<subseteq> gen ` {..<drawn st})"

text \<open>\<open>writes h\<close>: the handler \<open>h\<close>, run on the request, responds and leaves the store \<open>st'\<close>.\<close>

definition writes ::
  "handler \<Rightarrow> (nat \<Rightarrow> string) \<Rightarrow> env \<Rightarrow> request \<Rightarrow> store \<Rightarrow> store \<Rightarrow> bool" where
  "writes h gen e rq st st' = (\<exists>ps r. h gen e rq ps st = Respond r st')"

text \<open>
  The contact submissions that get past the \<^verbatim>\<open>!name || !email || !message\<close> test and on
  which no \<^verbatim>\<open>trim\<close> and no template conversion throws: name, email and message are
  non-empty strings, phone is falsy or a string, and the subject (or its default)
  converts to a string: it has no \<^verbatim>\<open>toString\<close> property of its own and is not nested
  deeper than the engine can join.
\<close>

fun nonempty_string :: "jsval \<Rightarrow> bool" where
  "nonempty_string (JStr s) = (s \<noteq> [])"
| "nonempty_string v = False"

definition well_formed_contact :: "env \<Rightarrow> request \<Rightarrow> bool" where
  "well_formed_contact e rq =
     (nonempty_string (body rq ''name'') \<and> nonempty_string (body rq ''email'') \<and>
      nonempty_string (body rq ''message'') \<and>
      (\<not> truthy (body rq ''phone'') \<or> nonempty_string (body rq ''phone'')) \<and>
      stringifies (join_limit e) (js_or (body rq ''subject'') (JStr ''General Inquiry'')))"

text \<open>
  The booking submissions that get past the test of the nine required fields and on
  which no template conversion throws.
\<close>

definition booking_required :: "string list" where
  "booking_required =
     [''name'', ''email'', ''phone'', ''eventType'', ''date'', ''package'', ''startTime'',
      ''endTime'', ''location'']"


section \<open>Concrete requests for the checks below\<close>

text \<open>A parsed object, as the list of its properties.\<close>

definition fields :: "(string \<times> jsval) list \<Rightarrow> string \<Rightarrow> jsval" where
  "fields kvs k = (case map_of kvs k of None \<Rightarrow> JUndefined | Some v \<Rightarrow> v)"

definition sample_gen :: "nat \<Rightarrow> string" where
  "sample_gen n = replicate (Suc n) CHR ''u''"

text \<open>
  The sample surroundings: a production server with its \<^verbatim>\<open>index.html\<close> in place, on an
  engine that converts and serialises values nested up to 5000 deep. The only percent
  escapes in the requests below are malformed ones, so no text with a percent sign has
  a decoding here.
\<close>

definition sample_env :: env where
  "sample_env =
     \<lparr> now = 1000, mail_ok = False, minted = ''t1'', over_limit = False, public_file = False,
       dist_file = False, production = True, admin_username = JStr ''admin'',
       admin_password = JStr ''secret'', session_ok = True, index_error = None,
       join_limit = 5000, json_limit = 5000, percent_decoded = (\<lambda>s. None) \<rparr>"

definition sample_store :: store where
  "sample_store = initializeSampleData sample_gen 0"

definition admin_get :: "string list \<Rightarrow> (string \<times> jsval) list \<Rightarrow> request" where
  "admin_get p q =
     \<lparr> meth = GET, path = p, query = fields q, body = fields [], session_admin = True,
       csrf_ok = False \<rparr>"

definition post :: "string list \<Rightarrow> (string \<times> jsval) list \<Rightarrow> bool \<Rightarrow> bool \<Rightarrow> request" where
  "post p kvs admin token =
     \<lparr> meth = POST, path = p, query = fields [], body = fields kvs, session_admin = admin,
       csrf_ok = token \<rparr>"

definition contact_form :: "(string \<times> jsval) list" where
  "contact_form =
     [(''name'', JStr ''Ann''), (''email'', JStr ''ann@example.com''),
      (''message'', JStr ''Hello'')]"

text \<open>\<open>nest n v\<close> is \<open>v\<close> wrapped in \<open>n\<close> arrays: \<^verbatim>\<open>[[...[v]...]]\<close>.\<close>

fun nest :: "nat \<Rightarrow> jsval \<Rightarrow> jsval" where
  "nest 0 v = v"
| "nest (Suc n) v = JArr [nest n v]"

text \<open>The sample contact form with a subject nested 6000 arrays deep.\<close>

definition deep_contact_form :: "(string \<times> jsval) list" where
  "deep_contact_form = contact_form @ [(''subject'', nest 6000 (JStr ''x''))]"

definition booking_form :: "(string \<times> jsval) list" where
  "booking_form =
     [(''name'', JStr ''A''), (''email'', JStr ''a@b.com''), (''phone'', JStr ''1''),
      (''eventType'', JStr ''Portrait''), (''date'', JStr ''2025-01-01''),
      (''startTime'', JStr ''10:00''), (''endTime'', JStr ''11:00''),
      (''location'', JStr ''Park''), (''package'', JStr ''Basic'')]"

section \<open>Lemmas about the model\<close>

subsection \<open>Array methods\<close>

lemma findIndex_Some:
  "findIndex P xs = Some i \<Longrightarrow> i < length xs \<and> P (xs ! i) \<and> (\<forall>j<i. \<not> P (xs ! j))"
proof (induction xs arbitrary: i)
  case Nil
  then show ?case by simp
next
  case (Cons x xs)
  show ?case
  proof (cases "P x")
    case True
    with Cons.prems show ?thesis by simp
  next
    case False
    with Cons.prems obtain k where k: "findIndex P xs = Some k" "i = Suc k"
      by auto
    from Cons.IH [OF k(1)] False k(2) show ?thesis
      by (auto simp: less_Suc_eq_0_disj)
  qed
qed

lemma find_findIndex:
  "find P xs = Some x \<longleftrightarrow> (\<exists>i. findIndex P xs = Some i \<and> xs ! i = x)"
  by (induction xs) auto

lemma findIndex_update:
  "findIndex P xs = Some k \<Longrightarrow> P y \<Longrightarrow> findIndex P (xs[k := y]) = Some k"
proof (induction xs arbitrary: k)
  case Nil
  then show ?case by simp
next
  case (Cons x xs)
  then show ?case by (cases "P x") auto
qed

lemma mset_insert_cmp: "mset (insert_cmp cmp x ys) = add_mset x (mset ys)"
  by (induction ys) simp_all

lemma mset_js_sort: "mset (js_sort cmp xs) = mset xs"
  by (induction xs) (simp_all add: js_sort_def mset_insert_cmp)

lemma set_insert_cmp: "set (insert_cmp cmp x ys) = insert x (set ys)"
  by (induction ys) auto

lemma sorted_insert_desc:
  fixes key :: "'a \<Rightarrow> int"
  assumes "sorted_wrt (\<lambda>a b. key b \<le> key a) ys"
  shows "sorted_wrt (\<lambda>a b. key b \<le> key a) (insert_cmp (\<lambda>a b. key b - key a) x ys)"
  using assms by (induction ys) (auto simp: set_insert_cmp)

lemma sorted_js_sort_desc:
  fixes key :: "'a \<Rightarrow> int"
  shows "sorted_wrt (\<lambda>a b. key b \<le> key a) (js_sort (\<lambda>a b. key b - key a) xs)"
proof (induction xs)
  case Nil
  show ?case by (simp add: js_sort_def)
next
  case (Cons x xs)
  from sorted_insert_desc [OF Cons, of x] show ?case
    by (simp add: js_sort_def)
qed

subsection \<open>Nested values\<close>

lemma join_depth_nest: "join_depth (nest n v) = n + join_depth v"
  by (induction n) simp_all

lemma json_depth_nest: "json_depth (nest n v) = n + json_depth v"
  by (induction n) simp_all

lemma own_toString_free_nest: "own_toString_free (nest n v) = own_toString_free v"
  by (induction n) simp_all

lemma truthy_nest: "0 < n \<Longrightarrow> truthy (nest n v)"
  by (cases n) simp_all

lemma serialises_booking_confirmed:
  "serialises_booking limit (b \<lparr> b_status := s, b_updatedAt := t \<rparr>) = serialises_booking limit b"
  by (simp add: serialises_booking_def booking_values_def)

lemma serialises_message_seen:
  "serialises_message limit (m \<lparr> m_read := r, m_readAt := t \<rparr>) = serialises_message limit m"
  by (simp add: serialises_message_def)

subsection \<open>Which layer answers\<close>

lemma lower_literals:
  "toLowerCase ''api'' = ''api''"
  "toLowerCase ''admin'' = ''admin''"
  "toLowerCase ''bookings'' = ''bookings''"
  "toLowerCase ''messages'' = ''messages''"
  "toLowerCase ''export'' = ''export''"
  "toLowerCase ''confirm'' = ''confirm''"
  "toLowerCase ''mark-read'' = ''mark-read''"
  "toLowerCase ''submit-contact'' = ''submit-contact''"
  "toLowerCase ''submit-booking'' = ''submit-booking''"
  by (simp_all add: toLowerCase_def lower_char_def)

lemmas middleware_defs = helmet_def morgan_def cors_def express_json_def express_urlencoded_def
  session_def static_def csrfProtection_def apiLimiter_def authenticate_def noCache_def
  api_not_found_def error_handler_def bad_csrf_token_def

lemmas response_defs = json_def json_with_token_def download_def export_failed_def

lemmas router_defs = raw_path_def decode_param_def uri_error_def

text \<open>
  A path that does not decode is answered by the error handler with 400, whatever the
  method (but for a preflight request, which \<^verbatim>\<open>cors\<close> answers first) and the rest of
  the request.
\<close>

lemma app_undecodable:
  assumes "decode_param e (raw_path (path rq)) = None" and "meth rq \<noteq> OPTIONS"
  shows "app gen e rq st = (json 400 (ErrorBody (err_message (uri_error (raw_path (path rq))))), st)"
  using assms by (simp add: app_def layers_def middleware_defs uri_error_def)

lemma app_submit_contact:
  assumes "meth rq = POST" and "path rq = [''api'', ''submit-contact'']"
    and "submit_contact gen e rq [] st = Respond r st'"
  shows "app gen e rq st =
     (if over_limit e then (json 429 TooManyRequests, st)
      else if \<not> csrf_ok rq
        then (json_with_token 403 (ErrorBody ''Invalid CSRF token'') (minted e), st)
      else (r, st'))"
  using assms by (simp add: app_def layers_def middleware_defs lower_literals router_defs)

lemma app_submit_booking:
  assumes "meth rq = POST" and "path rq = [''submit-booking'']"
    and "submit_booking gen e rq [] st = Respond r st'"
  shows "app gen e rq st =
     (if \<not> csrf_ok rq
        then (json_with_token 403 (ErrorBody ''Invalid CSRF token'') (minted e), st)
      else (r, st'))"
  using assms by (simp add: app_def layers_def middleware_defs lower_literals router_defs)

text \<open>
  The two admin endpoints with an identifier in the path: \<open>x\<close> is the segment as sent,
  \<open>i\<close> its decoding.
\<close>

lemma app_confirm:
  assumes "meth rq = POST" and "path rq = [''api'', ''admin'', ''bookings'', x, ''confirm'']"
    and "x \<noteq> []" and "decode_param e (raw_path (path rq)) \<noteq> None"
    and "decode_param e x = Some i"
    and "confirm_booking gen e rq [(''id'', i)] st = Respond r st'"
  shows "app gen e rq st =
     (if over_limit e then (json 429 TooManyRequests, st)
      else if \<not> session_admin rq
        then (json 401 (AuthError ''Authentication required'' False), st)
      else if \<not> csrf_ok rq
        then (json_with_token 403 (ErrorBody ''Invalid CSRF token'') (minted e), st)
      else (r, st'))"
proof -
  from assms(4) obtain v where "decode_param e (raw_path (path rq)) = Some v" by blast
  with assms(1,2,3,5,6) show ?thesis
    by (simp add: app_def layers_def middleware_defs lower_literals)
qed

lemma app_mark_read:
  assumes "meth rq = POST" and "path rq = [''api'', ''admin'', ''messages'', x, ''mark-read'']"
    and "x \<noteq> []" and "decode_param e (raw_path (path rq)) \<noteq> None"
    and "decode_param e x = Some i"
    and "mark_read gen e rq [(''id'', i)] st = Respond r st'"
  shows "app gen e rq st =
     (if over_limit e then (json 429 TooManyRequests, st)
      else if \<not> session_admin rq
        then (json 401 (AuthError ''Authentication required'' False), st)
      else if \<not> csrf_ok rq
        then (json_with_token 403 (ErrorBody ''Invalid CSRF token'') (minted e), st)
      else (r, st'))"
proof -
  from assms(4) obtain v where "decode_param e (raw_path (path rq)) = Some v" by blast
  with assms(1,2,3,5,6) show ?thesis
    by (simp add: app_def layers_def middleware_defs lower_literals)
qed

text \<open>The same two endpoints when the identifier does not decode though the path does.\<close>

lemma app_id_undecodable:
  assumes "meth rq = POST"
    and "path rq = [''api'', ''admin'', ''bookings'', x, ''confirm''] \<or>
         path rq = [''api'', ''admin'', ''messages'', x, ''mark-read'']"
    and "x \<noteq> []" and "decode_param e (raw_path (path rq)) \<noteq> None"
    and "decode_param e x = None"
  shows "app gen e rq st =
     (if over_limit e then (json 429 TooManyRequests, st)
      else if \<not> session_admin rq
        then (json 401 (AuthError ''Authentication required'' False), st)
      else (json 400 (ErrorBody (err_message (uri_error x))), st))"
proof -
  from assms(4) obtain v where "decode_param e (raw_path (path rq)) = Some v" by blast
  with assms(1,2,3,5) show ?thesis
    by (auto simp: app_def layers_def middleware_defs lower_literals uri_error_def)
qed

lemma app_list_messages:
  assumes "meth rq = GET" and "path rq = [''api'', ''admin'', ''messages'']"
    and "list_messages gen e rq [] st = Respond r st'"
  shows "app gen e rq st =
     (if public_file e then (json 200 StaticFile, st)
      else if over_limit e then (json 429 TooManyRequests, st)
      else if \<not> session_admin rq
        then (json 401 (AuthError ''Authentication required'' False), st)
      else (r, st'))"
  using assms by (simp add: app_def layers_def middleware_defs lower_literals router_defs)

lemma app_export_is_lookup:
  assumes "meth rq = GET" and "path rq = [''api'', ''admin'', ''bookings'', ''export'']"
    and "get_booking gen e rq [(''id'', ''export'')] st = Respond r st'"
  shows "app gen e rq st =
     (if public_file e then (json 200 StaticFile, st)
      else if over_limit e then (json 429 TooManyRequests, st)
      else if \<not> session_admin rq
        then (json 401 (AuthError ''Authentication required'' False), st)
      else (r, st'))"
  using assms by (simp add: app_def layers_def middleware_defs lower_literals router_defs)

lemma get_booking_plain:
  "get_booking gen e rq ps st = Respond r st' \<Longrightarrow> headers r = [] \<and> st' = st"
  by (auto simp: get_booking_def response_defs split: option.splits if_splits)

lemma get_booking_responds: "\<exists>r st'. get_booking gen e rq ps st = Respond r st'"
  by (simp add: get_booking_def split: option.splits)

lemma confirm_booking_responds: "\<exists>r st'. confirm_booking gen e rq ps st = Respond r st'"
  by (simp add: confirm_booking_def Let_def split: option.splits)

lemma mark_read_responds: "\<exists>r st'. mark_read gen e rq ps st = Respond r st'"
  by (simp add: mark_read_def Let_def split: option.splits)

lemma submit_contact_responds: "\<exists>r st'. submit_contact gen e rq ps st = Respond r st'"
  by (simp add: submit_contact_def Let_def split: option.splits)

lemma submit_booking_responds: "\<exists>r st'. submit_booking gen e rq ps st = Respond r st'"
  by (simp add: submit_booking_def Let_def)

subsection \<open>Only five handlers write to the collections\<close>

lemma run_chain_Respond:
  "run_chain hs gen e rq ps st = Respond r st' \<Longrightarrow>
   \<exists>h \<in> set hs. h gen e rq ps st = Respond r st'"
  by (induction hs) (auto split: outcome.splits)

lemma dispatch_rel:
  assumes "R st st"
    and "\<And>l h ps r st'. l \<in> set ls \<Longrightarrow> h \<in> set (layer_handlers l) \<Longrightarrow>
           h gen e rq ps st = Respond r st' \<Longrightarrow> R st st'"
  shows "R st (snd (dispatch ls gen e rq st))"
  using assms(2)
proof (induction ls)
  case Nil
  show ?case using assms(1) by simp
next
  case (Cons l ls)
  have IH: "R st (snd (dispatch ls gen e rq st))"
  proof (rule Cons.IH)
    fix l' h ps r st'
    assume "l' \<in> set ls" "h \<in> set (layer_handlers l')" "h gen e rq ps st = Respond r st'"
    then show "R st st'" using Cons.prems [of l' h ps r st'] by simp
  qed
  show ?case
  proof (cases "layer_params e l rq")
    case NoMatch
    then show ?thesis using IH by simp
  next
    case (DecodeError v)
    then show ?thesis using assms(1) by simp
  next
    case (Match ps)
    show ?thesis
    proof (cases "run_chain (layer_handlers l) gen e rq ps st")
      case Next
      then show ?thesis using Match IH by simp
    next
      case (Fail er)
      then show ?thesis using Match assms(1) by simp
    next
      case (Respond r st')
      then obtain h where "h \<in> set (layer_handlers l)" "h gen e rq ps st = Respond r st'"
        using run_chain_Respond by blast
      then have "R st st'" using Cons.prems [of l h ps r st'] by simp
      then show ?thesis using Match Respond by simp
    qed
  qed
qed

lemma writesI: "h gen e rq ps st = Respond r st' \<Longrightarrow> writes h gen e rq st st'"
  unfolding writes_def by blast

lemma app_writers:
  "snd (app gen e rq st) = st \<or>
   writes confirm_booking gen e rq st (snd (app gen e rq st)) \<or>
   writes get_message gen e rq st (snd (app gen e rq st)) \<or>
   writes mark_read gen e rq st (snd (app gen e rq st)) \<or>
   writes submit_contact gen e rq st (snd (app gen e rq st)) \<or>
   writes submit_booking gen e rq st (snd (app gen e rq st))"
  unfolding app_def
proof (rule dispatch_rel [where R = "\<lambda>s s'. s' = s \<or> writes confirm_booking gen e rq s s' \<or>
   writes get_message gen e rq s s' \<or> writes mark_read gen e rq s s' \<or>
   writes submit_contact gen e rq s s' \<or> writes submit_booking gen e rq s s'"], goal_cases)
  case 1
  show ?case by simp
next
  case (2 l h ps r st')
  then show ?case
    by (auto simp: layers_def middleware_defs csrf_token_route_def health_def
        check_auth_def login_def list_bookings_def get_booking_def export_bookings_def
        list_messages_def logout_def index_html_def Let_def
        split: if_splits option.splits intro: writesI)
qed

subsection \<open>What each writing handler changes\<close>

lemma confirm_booking_effect:
  assumes "confirm_booking gen e rq ps st = Respond r st'"
  shows "messages st' = messages st \<and> drawn st' = drawn st \<and>
         map b_id (bookings st') = map b_id (bookings st)"
proof (cases "findIndex (\<lambda>b. map_of ps ''id'' = Some (b_id b)) (bookings st)")
  case None
  with assms show ?thesis by (simp add: confirm_booking_def)
next
  case (Some i)
  then have "i < length (bookings st)" using findIndex_Some by fast
  with assms Some show ?thesis
    by (auto simp: confirm_booking_def Let_def list_eq_iff_nth_eq nth_list_update
        split: if_splits)
qed

lemma read_update:
  assumes "findIndex P ms = Some i"
  shows "map m_id (ms[i := (ms ! i)\<lparr>m_read := True, m_readAt := t\<rparr>]) = map m_id ms \<and>
         (\<forall>j < length ms. m_read (ms ! j) \<longrightarrow>
            m_read (ms[i := (ms ! i)\<lparr>m_read := True, m_readAt := t\<rparr>] ! j))"
proof -
  have "i < length ms" using assms findIndex_Some by fast
  then show ?thesis
    by (auto simp: list_eq_iff_nth_eq nth_list_update)
qed

lemma get_message_effect:
  assumes "get_message gen e rq ps st = Respond r st'"
  shows "bookings st' = bookings st \<and> drawn st' = drawn st \<and>
         map m_id (messages st') = map m_id (messages st) \<and>
         (\<forall>j < length (messages st). m_read (messages st ! j) \<longrightarrow> m_read (messages st' ! j))"
proof (cases "findIndex (\<lambda>m. map_of ps ''id'' = Some (m_id m)) (messages st)")
  case None
  with assms show ?thesis by (auto simp add: get_message_def)
next
  case (Some i)
  from read_update [OF Some] assms Some show ?thesis
    by (auto simp: get_message_def Let_def split: if_splits)
qed

lemma mark_read_effect:
  assumes "mark_read gen e rq ps st = Respond r st'"
  shows "bookings st' = bookings st \<and> drawn st' = drawn st \<and>
         map m_id (messages st') = map m_id (messages st) \<and>
         (\<forall>j < length (messages st). m_read (messages st ! j) \<longrightarrow> m_read (messages st' ! j))"
proof (cases "findIndex (\<lambda>m. map_of ps ''id'' = Some (m_id m)) (messages st)")
  case None
  with assms show ?thesis by (auto simp add: mark_read_def)
next
  case (Some i)
  from read_update [OF Some] assms Some show ?thesis
    by (auto simp: mark_read_def Let_def split: if_splits)
qed

lemma submit_contact_effect:
  assumes "submit_contact gen e rq ps st = Respond r st'"
  shows "bookings st' = bookings st \<and> drawn st \<le> drawn st' \<and>
         (messages st' = messages st \<or>
          (\<exists>m. messages st' = messages st @ [m] \<and> m_id m = gen (drawn st) \<and>
               \<not> m_read m \<and> \<not> m_archived m \<and> drawn st' = Suc (drawn st)))"
  using assms
  by (auto simp: submit_contact_def Let_def split: if_splits option.splits)

lemma submit_booking_effect:
  assumes "submit_booking gen e rq ps st = Respond r st'"
  shows "messages st' = messages st \<and> drawn st \<le> drawn st' \<and>
         (bookings st' = bookings st \<or>
          (\<exists>b. bookings st' = bookings st @ [b] \<and> b_id b = gen (drawn st) \<and>
               b_status b = ''pending'' \<and> drawn st' = Suc (drawn st)))"
  using assms
  by (auto simp: submit_booking_def Let_def split: if_splits)

subsection \<open>Identifiers in reachable states\<close>

lemma ids_drawn_boot: "ids_drawn gen (initializeSampleData gen t)"
  by (simp add: ids_drawn_def initializeSampleData_def lessThan_def)

lemma ids_drawn_step:
  assumes "ids_drawn gen st" and "drawn st \<le> drawn st'"
    and "set (map b_id (bookings st')) \<subseteq> set (map b_id (bookings st)) \<union> gen ` {..<drawn st'}"
    and "set (map m_id (messages st')) \<subseteq> set (map m_id (messages st)) \<union> gen ` {..<drawn st'}"
  shows "ids_drawn gen st'"
proof -
  from assms(2) have "gen ` {..<drawn st} \<subseteq> gen ` {..<drawn st'}"
    by (intro image_mono) simp
  with assms(1,3,4) show ?thesis
    unfolding ids_drawn_def by blast
qed

lemma ids_drawn_app:
  assumes "ids_drawn gen st"
  shows "ids_drawn gen (snd (app gen e rq st))"
proof -
  let ?st' = "snd (app gen e rq st)"
  from app_writers [of gen e rq st] show ?thesis
    unfolding writes_def
  proof (elim disjE exE)
    assume "?st' = st"
    with assms show ?thesis by simp
  next
    fix ps r assume "confirm_booking gen e rq ps st = Respond r ?st'"
    from confirm_booking_effect [OF this] show ?thesis
      by (intro ids_drawn_step [OF assms]) simp_all
  next
    fix ps r assume "get_message gen e rq ps st = Respond r ?st'"
    from get_message_effect [OF this] show ?thesis
      by (intro ids_drawn_step [OF assms]) simp_all
  next
    fix ps r assume "mark_read gen e rq ps st = Respond r ?st'"
    from mark_read_effect [OF this] show ?thesis
      by (intro ids_drawn_step [OF assms]) simp_all
  next
    fix ps r assume "submit_contact gen e rq ps st = Respond r ?st'"
    from submit_contact_effect [OF this] show ?thesis
      by (intro ids_drawn_step [OF assms]) auto
  next
    fix ps r assume "submit_booking gen e rq ps st = Respond r ?st'"
    from submit_booking_effect [OF this] show ?thesis
      by (intro ids_drawn_step [OF assms]) auto
  qed
qed

lemma reachable_ids_drawn: "reachable gen st \<Longrightarrow> ids_drawn gen st"
  by (induction rule: reachable.induct) (simp_all add: ids_drawn_boot ids_drawn_app)

lemma fresh_id:
  assumes "inj gen" and "ids_drawn gen st"
  shows "gen (drawn st) \<notin> set (map m_id (messages st)) \<and>
         gen (drawn st) \<notin> set (map b_id (bookings st))"
proof -
  have "gen (drawn st) \<notin> gen ` {..<drawn st}"
    using assms(1) by (auto simp: inj_def)
  with assms(2) show ?thesis unfolding ids_drawn_def by blast
qed

subsection \<open>Accepted submissions\<close>


lemma nonempty_stringE:
  assumes "nonempty_string v"
  obtains s where "v = JStr s" and "s \<noteq> []"
  using assms by (cases v) auto

lemma submit_contact_accepts:
  assumes "well_formed_contact e rq"
  shows "\<exists>m. m_id m = gen (drawn st) \<and> \<not> m_read m \<and> \<not> m_archived m \<and> m_date m = now e \<and>
     (\<forall>sent. submit_contact gen (e\<lparr>mail_ok := sent\<rparr>) rq ps st =
        Respond (json_with_token 201
          (ContactSaved ''Message sent successfully!'' (m_id m) sent) (minted e))
         (st \<lparr> messages := messages st @ [m], drawn := Suc (drawn st) \<rparr>))"
proof -
  from assms obtain n a m where
    n: "body rq ''name'' = JStr n" "n \<noteq> []" and
    a: "body rq ''email'' = JStr a" "a \<noteq> []" and
    m: "body rq ''message'' = JStr m" "m \<noteq> []"
    unfolding well_formed_contact_def by (metis nonempty_stringE)
  from assms have s:
    "stringifies (join_limit e) (js_or (body rq ''subject'') (JStr ''General Inquiry''))"
    unfolding well_formed_contact_def by simp
  from assms consider (none) "\<not> truthy (body rq ''phone'')"
    | (some) p where "body rq ''phone'' = JStr p" "p \<noteq> []"
    unfolding well_formed_contact_def by (metis nonempty_stringE)
  then show ?thesis
  proof cases
    case none
    let ?m = "\<lparr> m_id = gen (drawn st), m_name = trim n, m_email = trim a, m_phone = Some [],
       m_subject = js_or (body rq ''subject'') (JStr ''General Inquiry''), m_message = trim m,
       m_date = now e, m_read = False, m_archived = False, m_readAt = None \<rparr>"
    from none n a m s show ?thesis
      by (intro exI [of _ ?m]) (simp add: submit_contact_def Let_def)
  next
    case some
    let ?m = "\<lparr> m_id = gen (drawn st), m_name = trim n, m_email = trim a,
       m_phone = Some (trim p),
       m_subject = js_or (body rq ''subject'') (JStr ''General Inquiry''), m_message = trim m,
       m_date = now e, m_read = False, m_archived = False, m_readAt = None \<rparr>"
    from some n a m s show ?thesis
      by (intro exI [of _ ?m]) (simp add: submit_contact_def Let_def)
  qed
qed




lemma booking_test:
  "(\<not> truthy (body rq ''name'') \<or> \<not> truthy (body rq ''email'') \<or>
    \<not> truthy (body rq ''phone'') \<or> \<not> truthy (body rq ''eventType'') \<or>
    \<not> truthy (body rq ''date'') \<or> \<not> truthy (body rq ''package'') \<or>
    \<not> truthy (body rq ''startTime'') \<or> \<not> truthy (body rq ''endTime'') \<or>
    \<not> truthy (body rq ''location''))
   \<longleftrightarrow> \<not> list_all (\<lambda>k. truthy (body rq k)) booking_required"
  by (simp add: booking_required_def)

lemma submit_booking_missing:
  assumes "k \<in> set booking_required" and "\<not> truthy (body rq k)"
  shows "submit_booking gen e rq ps st =
     Respond (json_with_token 400 (Outcome False ''Missing required fields'') (minted e)) st"
proof -
  from assms have "\<not> list_all (\<lambda>k. truthy (body rq k)) booking_required"
    by (auto simp: list_all_iff)
  then have "\<not> truthy (body rq ''name'') \<or> \<not> truthy (body rq ''email'') \<or>
    \<not> truthy (body rq ''phone'') \<or> \<not> truthy (body rq ''eventType'') \<or>
    \<not> truthy (body rq ''date'') \<or> \<not> truthy (body rq ''package'') \<or>
    \<not> truthy (body rq ''startTime'') \<or> \<not> truthy (body rq ''endTime'') \<or>
    \<not> truthy (body rq ''location'')"
    by (rule booking_test [THEN iffD2])
  then show ?thesis
    unfolding submit_booking_def Let_def by (rule if_P)
qed



subsection \<open>The concrete inputs\<close>

lemma sample_ids:
  "sample_gen 0 = ''u''" "sample_gen (Suc 0) = ''uu''" "sample_gen 2 = ''uuu''"
  "sample_gen 3 = ''uuuu''" "sample_gen 4 = ''uuuuu''"
  by (simp_all add: sample_gen_def eval_nat_numeral)

lemma sample_gen_inj: "inj sample_gen"
proof (rule injI)
  fix m n assume "sample_gen m = sample_gen n"
  then have "length (sample_gen m) = length (sample_gen n)" by simp
  then show "m = n" by (simp add: sample_gen_def)
qed

lemma sample_store_reachable: "reachable sample_gen sample_store"
  unfolding sample_store_def by (rule reachable.boot)

lemmas sample_defs = sample_ids sample_env_def sample_store_def admin_get_def post_def
  fields_def initializeSampleData_def

section \<open>The claims\<close>

subsection \<open>Export of bookings\<close>

text \<open>
  Run on its own, the export handler does what is asked of it: without an \<open>id\<close> it sends
  the whole collection (when it serialises) as a download named \<^verbatim>\<open>bookings.json\<close>.
\<close>

lemma export_bookings_all:
  "\<not> truthy (query rq ''id'') \<Longrightarrow>
   list_all (serialises_booking (json_limit e)) (bookings st) \<Longrightarrow>
   export_bookings gen e rq ps st =
     Respond (download ''bookings.json'' (AllBookings (bookings st))) st"
  by (simp add: export_bookings_def)

text \<open>
  Through the server it is never reached. Whatever the state and the query, a GET to
  \<^verbatim>\<open>/api/admin/bookings/export\<close> that is not answered by a guard is answered by the
  lookup of the booking whose identifier is \<open>export\<close>, and that response has no
  download header.
\<close>

lemma export_never_downloads:
  assumes "meth rq = GET" and "path rq = [''api'', ''admin'', ''bookings'', ''export'']"
  shows "snd (app gen e rq st) = st \<and> headers (fst (app gen e rq st)) = []"
proof -
  obtain r st' where r: "get_booking gen e rq [(''id'', ''export'')] st = Respond r st'"
    using get_booking_responds by blast
  from get_booking_plain [OF r] app_export_is_lookup [OF assms r] show ?thesis
    by (simp add: response_defs)
qed

text \<open>
  Claim C1: a GET to \<^verbatim>\<open>/api/admin/bookings/export\<close> by an authenticated admin is answered
  with the full collection as a pretty-printed download when the query has no \<open>id\<close>,
  and with the single booking when the \<open>id\<close> matches a stored one. The code does not do
  this. The route \<^verbatim>\<open>/api/admin/bookings/:id\<close> is registered before the export route and
  matches the path with \<open>id = export\<close>, so the request is answered by the lookup of a
  booking called \<open>export\<close>: on the sample data, with no \<open>id\<close> in the query and with the
  \<open>id\<close> of the first sample booking alike, 404 with \<^verbatim>\<open>Booking not found\<close> and no
  download header.
\<close>

theorem export_route_shadowed:
  "app sample_gen sample_env (admin_get [''api'', ''admin'', ''bookings'', ''export''] [])
       sample_store
     = (\<lparr> status = 404, headers = [], payload = ErrorBody ''Booking not found'',
          csrfToken = None \<rparr>, sample_store) \<and>
   find (\<lambda>b. b_id b = ''u'') (bookings sample_store) \<noteq> None \<and>
   app sample_gen sample_env
       (admin_get [''api'', ''admin'', ''bookings'', ''export''] [(''id'', JStr ''u'')])
       sample_store
     = (\<lparr> status = 404, headers = [], payload = ErrorBody ''Booking not found'',
          csrfToken = None \<rparr>, sample_store)"
  by (simp add: app_def layers_def middleware_defs lower_literals sample_defs response_defs
      router_defs get_booking_def)

subsection \<open>The CSRF token in responses\<close>

text \<open>
  Claim C2: every response of the four mutating POST endpoints carries a fresh CSRF
  token, on success and on every failure, not-found included. The code leaves the token
  out of its not-found responses: an admin with a valid token who confirms a booking,
  or marks a message read, under an identifier that is not in the collection gets 404
  with \<^verbatim>\<open>{error: ...}\<close> alone.
\<close>

theorem not_found_carries_no_token:
  "app sample_gen sample_env
       (post [''api'', ''admin'', ''bookings'', ''no-such-id'', ''confirm''] [] True True)
       sample_store
     = (\<lparr> status = 404, headers = [], payload = ErrorBody ''Booking not found'',
          csrfToken = None \<rparr>, sample_store) \<and>
   app sample_gen sample_env
       (post [''api'', ''admin'', ''messages'', ''no-such-id'', ''mark-read''] [] True True)
       sample_store
     = (\<lparr> status = 404, headers = [], payload = ErrorBody ''Message not found'',
          csrfToken = None \<rparr>, sample_store)"
  by (simp add: app_def layers_def middleware_defs lower_literals sample_defs response_defs
      router_defs confirm_booking_def mark_read_def)

text \<open>
  The responses of the guards in front of these handlers (429 from the rate limiter,
  401 from the authentication guard, 400 for a path that does not decode) carry no
  token either. Of the responses to a request that is past them, not-found is the only
  one without the token: every other one, the 500 of a catch branch included, carries
  the token minted for the request. (\<open>x\<close> is the identifier in the path as sent.)
\<close>

lemma token_everywhere_but_not_found:
  assumes "meth rq = POST"
    and "path rq = [''api'', ''admin'', ''bookings'', x, ''confirm''] \<or>
         path rq = [''api'', ''admin'', ''messages'', x, ''mark-read''] \<or>
         path rq = [''api'', ''submit-contact''] \<or>
         path rq = [''submit-booking'']"
    and "x \<noteq> []"
    and "decode_param e (raw_path (path rq)) \<noteq> None" and "decode_param e x \<noteq> None"
    and "\<not> (take 1 (path rq) = [''api''] \<and> over_limit e)"
    and "\<not> (take 2 (path rq) = [''api'', ''admin''] \<and> \<not> session_admin rq)"
  shows "csrfToken (fst (app gen e rq st)) = Some (minted e) \<or>
         status (fst (app gen e rq st)) = 404"
proof -
  from assms(5) obtain i where i: "decode_param e x = Some i" by blast
  consider (confirm) "path rq = [''api'', ''admin'', ''bookings'', x, ''confirm'']"
    | (mark) "path rq = [''api'', ''admin'', ''messages'', x, ''mark-read'']"
    | (contact) "path rq = [''api'', ''submit-contact'']"
    | (booking) "path rq = [''submit-booking'']"
    using assms(2) by blast
  then show ?thesis
  proof cases
    case confirm
    obtain r st' where r: "confirm_booking gen e rq [(''id'', i)] st = Respond r st'"
      using confirm_booking_responds by blast
    then have "csrfToken r = Some (minted e) \<or> status r = 404"
      by (auto simp: confirm_booking_def Let_def response_defs split: option.splits if_splits)
    with app_confirm [OF assms(1) confirm assms(3,4) i r] assms(6,7) confirm show ?thesis
      by (auto simp: response_defs)
  next
    case mark
    obtain r st' where r: "mark_read gen e rq [(''id'', i)] st = Respond r st'"
      using mark_read_responds by blast
    then have "csrfToken r = Some (minted e) \<or> status r = 404"
      by (auto simp: mark_read_def Let_def response_defs split: option.splits if_splits)
    with app_mark_read [OF assms(1) mark assms(3,4) i r] assms(6,7) mark show ?thesis
      by (auto simp: response_defs)
  next
    case contact
    obtain r st' where r: "submit_contact gen e rq [] st = Respond r st'"
      using submit_contact_responds by blast
    then have "csrfToken r = Some (minted e)"
      by (auto simp: submit_contact_def Let_def response_defs split: option.splits if_splits)
    with app_submit_contact [OF assms(1) contact r] assms(6) contact show ?thesis
      by (auto simp: response_defs)
  next
    case booking
    obtain r st' where r: "submit_booking gen e rq [] st = Respond r st'"
      using submit_booking_responds by blast
    then have "csrfToken r = Some (minted e)"
      by (auto simp: submit_booking_def Let_def response_defs split: if_splits)
    with app_submit_booking [OF assms(1) booking r] show ?thesis
      by (auto simp: response_defs)
  qed
qed

subsection \<open>Requests without a valid CSRF token\<close>

text \<open>
  Claim C3, as amended: a POST to one of the four state-changing endpoints (\<open>x\<close> is the
  identifier in the path of the two admin endpoints, as sent) without a valid CSRF
  token never changes the collections. It is answered with 403 when it reaches the
  token check. Before that, a request whose path holds a malformed percent escape is
  answered with 400, a request under \<^verbatim>\<open>/api\<close> over the rate limit with 429, and a
  request to one of the two admin endpoints without an admin session with 401.
\<close>

theorem csrf_rejection_behind_the_guards:
  assumes "meth rq = POST"
    and "path rq = [''api'', ''admin'', ''bookings'', x, ''confirm''] \<or>
         path rq = [''api'', ''admin'', ''messages'', x, ''mark-read''] \<or>
         path rq = [''api'', ''submit-contact''] \<or>
         path rq = [''submit-booking'']"
    and "\<not> csrf_ok rq" and "x \<noteq> []"
  shows "snd (app gen e rq st) = st \<and>
         status (fst (app gen e rq st)) =
           (if decode_param e (raw_path (path rq)) = None then 400
            else if take 1 (path rq) = [''api''] \<and> over_limit e then 429
            else if take 2 (path rq) = [''api'', ''admin''] \<and> \<not> session_admin rq then 401
            else if take 2 (path rq) = [''api'', ''admin''] \<and> decode_param e x = None then 400
            else 403)"
proof (cases "decode_param e (raw_path (path rq))")
  case None
  from assms(1) have "meth rq \<noteq> OPTIONS" by simp
  from app_undecodable [OF None this] None show ?thesis
    by (simp add: json_def)
next
  case (Some v)
  then have dec: "decode_param e (raw_path (path rq)) \<noteq> None" by simp
  consider (confirm) "path rq = [''api'', ''admin'', ''bookings'', x, ''confirm'']"
    | (mark) "path rq = [''api'', ''admin'', ''messages'', x, ''mark-read'']"
    | (contact) "path rq = [''api'', ''submit-contact'']"
    | (booking) "path rq = [''submit-booking'']"
    using assms(2) by blast
  then show ?thesis
  proof cases
    case confirm
    show ?thesis
    proof (cases "decode_param e x")
      case None
      from confirm have "path rq = [''api'', ''admin'', ''bookings'', x, ''confirm''] \<or>
         path rq = [''api'', ''admin'', ''messages'', x, ''mark-read'']" by simp
      from app_id_undecodable [OF assms(1) this assms(4) dec None] dec None confirm
      show ?thesis by (simp add: response_defs)
    next
      case (Some i)
      obtain r st' where "confirm_booking gen e rq [(''id'', i)] st = Respond r st'"
        using confirm_booking_responds by blast
      from app_confirm [OF assms(1) confirm assms(4) dec Some this] assms(3) dec Some confirm
      show ?thesis by (simp add: response_defs)
    qed
  next
    case mark
    show ?thesis
    proof (cases "decode_param e x")
      case None
      from mark have "path rq = [''api'', ''admin'', ''bookings'', x, ''confirm''] \<or>
         path rq = [''api'', ''admin'', ''messages'', x, ''mark-read'']" by simp
      from app_id_undecodable [OF assms(1) this assms(4) dec None] dec None mark
      show ?thesis by (simp add: response_defs)
    next
      case (Some i)
      obtain r st' where "mark_read gen e rq [(''id'', i)] st = Respond r st'"
        using mark_read_responds by blast
      from app_mark_read [OF assms(1) mark assms(4) dec Some this] assms(3) dec Some mark
      show ?thesis by (simp add: response_defs)
    qed
  next
    case contact
    obtain r st' where "submit_contact gen e rq [] st = Respond r st'"
      using submit_contact_responds by blast
    from app_submit_contact [OF assms(1) contact this] assms(3) dec contact show ?thesis
      by (simp add: response_defs)
  next
    case booking
    obtain r st' where "submit_booking gen e rq [] st = Respond r st'"
      using submit_booking_responds by blast
    from app_submit_booking [OF assms(1) booking this] assms(3) dec booking show ?thesis
      by (simp add: response_defs)
  qed
qed

text \<open>The amended claim at a contact submission without a token: 403, nothing stored.\<close>

theorem csrf_rejection_witness:
  "meth (post [''api'', ''submit-contact''] contact_form False False) = POST \<and>
   path (post [''api'', ''submit-contact''] contact_form False False)
     = [''api'', ''submit-contact''] \<and>
   \<not> csrf_ok (post [''api'', ''submit-contact''] contact_form False False) \<and>
   status (fst (app sample_gen sample_env
     (post [''api'', ''submit-contact''] contact_form False False) sample_store)) = 403 \<and>
   snd (app sample_gen sample_env
     (post [''api'', ''submit-contact''] contact_form False False) sample_store) = sample_store"
  using csrf_rejection_behind_the_guards
    [where rq = "post [''api'', ''submit-contact''] contact_form False False" and x = "''x''"
      and gen = sample_gen and e = sample_env and st = sample_store]
  by (simp add: post_def sample_env_def router_defs)

text \<open>
  Claim C3 as stated fails: the same sample server answers a confirm request that has
  neither an admin session nor a token with 401, a contact submission without a
  token that is over the rate limit with 429, and an admin's confirm request without a
  token for the identifier \<^verbatim>\<open>%zz\<close> with 400.
\<close>

theorem csrf_rejection_counterexample:
  "meth (post [''api'', ''admin'', ''bookings'', ''u'', ''confirm''] [] False False) = POST \<and>
   \<not> csrf_ok (post [''api'', ''admin'', ''bookings'', ''u'', ''confirm''] [] False False) \<and>
   status (fst (app sample_gen sample_env
     (post [''api'', ''admin'', ''bookings'', ''u'', ''confirm''] [] False False)
     sample_store)) = 401 \<and>
   status (fst (app sample_gen (sample_env \<lparr> over_limit := True \<rparr>)
     (post [''api'', ''submit-contact''] contact_form False False) sample_store)) = 429 \<and>
   status (fst (app sample_gen sample_env
     (post [''api'', ''admin'', ''bookings'', ''%zz'', ''confirm''] [] True False)
     sample_store)) = 400"
  by (simp add: app_def layers_def middleware_defs lower_literals sample_defs response_defs
      router_defs)

subsection \<open>Contact submissions\<close>

text \<open>
  Claim C4: a contact submission in which name, email or message is missing is answered
  with 400 and appends no record. The handler answers so whatever else the submission
  holds; for a request to the running server this is the response once the request is
  past the rate limiter and the token check, and the collections are unchanged in every
  case.
\<close>

theorem contact_missing_field_rejected:
  assumes "body rq ''name'' = JUndefined \<or> body rq ''email'' = JUndefined \<or>
           body rq ''message'' = JUndefined"
  shows "\<exists>r. status r = 400 \<and>
           submit_contact gen e rq ps st = Respond r st \<and>
           (meth rq = POST \<and> path rq = [''api'', ''submit-contact''] \<longrightarrow>
              snd (app gen e rq st) = st \<and>
              (csrf_ok rq \<and> \<not> over_limit e \<longrightarrow> fst (app gen e rq st) = r))"
proof -
  let ?r = "json_with_token 400
              (Outcome False ''Missing required fields (name, email, message)'') (minted e)"
  from assms have falsy:
    "\<not> truthy (body rq ''name'') \<or> \<not> truthy (body rq ''email'') \<or>
     \<not> truthy (body rq ''message'')"
    by auto
  then have run: "submit_contact gen e rq qs st = Respond ?r st" for qs
    by (auto simp: submit_contact_def)
  have "snd (app gen e rq st) = st \<and>
        (csrf_ok rq \<and> \<not> over_limit e \<longrightarrow> fst (app gen e rq st) = ?r)"
    if "meth rq = POST" and "path rq = [''api'', ''submit-contact'']"
    using app_submit_contact [OF that run [of "[]"]] by simp
  with run [of ps] show ?thesis
    by (intro exI [of _ ?r]) (simp add: json_with_token_def)
qed

text \<open>A submission with only a name, sent with a valid token: 400, nothing stored.\<close>

theorem contact_missing_field_witness:
  "body (post [''api'', ''submit-contact''] [(''name'', JStr ''Ann'')] False True) ''email''
     = JUndefined \<and>
   status (fst (app sample_gen sample_env
     (post [''api'', ''submit-contact''] [(''name'', JStr ''Ann'')] False True)
     sample_store)) = 400 \<and>
   messages (snd (app sample_gen sample_env
     (post [''api'', ''submit-contact''] [(''name'', JStr ''Ann'')] False True)
     sample_store)) = messages sample_store"
  using contact_missing_field_rejected
    [of "post [''api'', ''submit-contact''] [(''name'', JStr ''Ann'')] False True"
      sample_gen sample_env "[]" sample_store]
  by (auto simp: post_def fields_def sample_env_def)

text \<open>
  Claim C5, as amended: a contact submission with a valid CSRF token and within the
  rate limit, in which name, email and message are non-empty strings, phone is falsy or
  a string, and the subject (when given) converts to a string (it has no \<^verbatim>\<open>toString\<close>
  property of its own and is not nested deeper than the engine can join), appends
  exactly one record at the end of the messages collection, with \<open>read = false\<close> and
  \<open>archived = false\<close>; the response is 201 and reports that record's identifier; and, as
  long as the identifier generator never repeats itself, the identifier differs from
  that of every record already stored.
\<close>

theorem contact_saved:
  assumes "meth rq = POST" and "path rq = [''api'', ''submit-contact'']"
    and "csrf_ok rq" and "\<not> over_limit e"
    and "well_formed_contact e rq"
    and "inj gen" and "reachable gen st"
  shows "\<exists>m. messages (snd (app gen e rq st)) = messages st @ [m] \<and>
             bookings (snd (app gen e rq st)) = bookings st \<and>
             \<not> m_read m \<and> \<not> m_archived m \<and>
             m_id m \<notin> set (map m_id (messages st)) \<and>
             m_id m \<notin> set (map b_id (bookings st)) \<and>
             fst (app gen e rq st) =
               json_with_token 201
                 (ContactSaved ''Message sent successfully!'' (m_id m) (mail_ok e)) (minted e)"
proof -
  from submit_contact_accepts [OF assms(5), of gen st "[]"]
  obtain m where m: "m_id m = gen (drawn st)" "\<not> m_read m" "\<not> m_archived m"
    and run: "\<And>sent. submit_contact gen (e\<lparr>mail_ok := sent\<rparr>) rq [] st =
        Respond (json_with_token 201
          (ContactSaved ''Message sent successfully!'' (m_id m) sent) (minted e))
         (st \<lparr> messages := messages st @ [m], drawn := Suc (drawn st) \<rparr>)"
    by blast
  from run [of "mail_ok e"] have
    "submit_contact gen e rq [] st =
        Respond (json_with_token 201
          (ContactSaved ''Message sent successfully!'' (m_id m) (mail_ok e)) (minted e))
         (st \<lparr> messages := messages st @ [m], drawn := Suc (drawn st) \<rparr>)"
    by simp
  from app_submit_contact [OF assms(1,2) this] assms(3,4)
  have app: "app gen e rq st =
      (json_with_token 201
          (ContactSaved ''Message sent successfully!'' (m_id m) (mail_ok e)) (minted e),
       st \<lparr> messages := messages st @ [m], drawn := Suc (drawn st) \<rparr>)"
    by simp
  from fresh_id [OF assms(6) reachable_ids_drawn [OF assms(7)]] m(1)
  have "m_id m \<notin> set (map m_id (messages st)) \<and> m_id m \<notin> set (map b_id (bookings st))"
    by simp
  with app m show ?thesis by (intro exI [of _ m]) simp
qed

text \<open>The sample contact form, sent to the freshly started server with a valid token.\<close>

theorem contact_saved_witness:
  "inj sample_gen \<and> reachable sample_gen sample_store \<and>
   well_formed_contact sample_env (post [''api'', ''submit-contact''] contact_form False True) \<and>
   (\<exists>m. messages (snd (app sample_gen sample_env
            (post [''api'', ''submit-contact''] contact_form False True) sample_store))
          = messages sample_store @ [m] \<and>
        \<not> m_read m \<and> \<not> m_archived m \<and>
        m_id m \<notin> set (map m_id (messages sample_store)) \<and>
        fst (app sample_gen sample_env
            (post [''api'', ''submit-contact''] contact_form False True) sample_store)
          = json_with_token 201 (ContactSaved ''Message sent successfully!'' (m_id m) False)
              ''t1'')"
proof -
  let ?rq = "post [''api'', ''submit-contact''] contact_form False True"
  have wf: "well_formed_contact sample_env ?rq"
    by (simp add: well_formed_contact_def post_def fields_def contact_form_def js_or_def
        stringifies_def)
  have "meth ?rq = POST" "path ?rq = [''api'', ''submit-contact'']" "csrf_ok ?rq"
    "\<not> over_limit sample_env"
    by (simp_all add: post_def sample_env_def)
  from contact_saved [OF this wf sample_gen_inj sample_store_reachable]
  have "\<exists>m. messages (snd (app sample_gen sample_env ?rq sample_store))
          = messages sample_store @ [m] \<and>
        \<not> m_read m \<and> \<not> m_archived m \<and>
        m_id m \<notin> set (map m_id (messages sample_store)) \<and>
        fst (app sample_gen sample_env ?rq sample_store)
          = json_with_token 201 (ContactSaved ''Message sent successfully!'' (m_id m) False)
              ''t1''"
    by (auto simp: sample_env_def)
  with wf sample_gen_inj sample_store_reachable show ?thesis by blast
qed

text \<open>
  Claim C5 as stated fails where a field is present but not a non-empty string: with
  \<^verbatim>\<open>name: ""\<close> the submission is answered with 400, with \<^verbatim>\<open>name: 5\<close> the call
  \<^verbatim>\<open>name.trim()\<close> throws and the answer is 500, and over the rate limit it is 429; in all
  three nothing is appended. With a subject nested 6000 arrays deep, on an engine that
  joins 5000 levels, the record is appended but the answer is 500.
\<close>

theorem contact_saved_counterexample:
  "body (post [''api'', ''submit-contact'']
      [(''name'', JStr ''''), (''email'', JStr ''a@b.c''), (''message'', JStr ''hi'')]
      False True) ''name'' \<noteq> JUndefined \<and>
   status (fst (app sample_gen sample_env (post [''api'', ''submit-contact'']
      [(''name'', JStr ''''), (''email'', JStr ''a@b.c''), (''message'', JStr ''hi'')]
      False True) sample_store)) = 400 \<and>
   messages (snd (app sample_gen sample_env (post [''api'', ''submit-contact'']
      [(''name'', JStr ''''), (''email'', JStr ''a@b.c''), (''message'', JStr ''hi'')]
      False True) sample_store)) = messages sample_store \<and>
   status (fst (app sample_gen sample_env (post [''api'', ''submit-contact'']
      [(''name'', JNum 5), (''email'', JStr ''a@b.c''), (''message'', JStr ''hi'')]
      False True) sample_store)) = 500 \<and>
   messages (snd (app sample_gen sample_env (post [''api'', ''submit-contact'']
      [(''name'', JNum 5), (''email'', JStr ''a@b.c''), (''message'', JStr ''hi'')]
      False True) sample_store)) = messages sample_store \<and>
   status (fst (app sample_gen (sample_env \<lparr> over_limit := True \<rparr>)
      (post [''api'', ''submit-contact''] contact_form False True) sample_store)) = 429 \<and>
   status (fst (app sample_gen sample_env
      (post [''api'', ''submit-contact''] deep_contact_form False True) sample_store)) = 500"
  by (simp add: app_def layers_def middleware_defs lower_literals sample_defs response_defs
      router_defs submit_contact_def contact_form_def deep_contact_form_def js_or_def
      truthy_nest stringifies_def join_depth_nest)

subsection \<open>Confirming a booking\<close>

text \<open>
  Claim C6: for a booking held under identifier \<open>i\<close>, confirming \<open>i\<close> twice leaves it with
  the status it has after one confirmation, \<open>confirmed\<close>; each call rewrites
  \<open>updatedAt\<close> with its own clock reading and changes nothing else, in this booking or
  in any other. Each call answers 200 with the booking as it now is, or, when the
  booking holds a value too deeply nested to serialise, 500 from the catch branch, the
  booking confirmed all the same. The statement is about the handler, for any two
  requests and surroundings, and carries over to the running server for requests that
  pass the rate limiter, the authentication guard and the token check (\<open>x\<close> is the
  identifier as sent in the path, \<open>i\<close> its decoding).
\<close>

theorem confirm_twice:
  fixes b :: booking
  defines "confirmed t \<equiv> b \<lparr> b_status := ''confirmed'', b_updatedAt := Some t \<rparr>"
    and "answer e \<equiv>
      (if serialises_booking (json_limit e) b
       then json_with_token 200
              (ABooking (b \<lparr> b_status := ''confirmed'', b_updatedAt := Some (now e) \<rparr>))
              (minted e)
       else json_with_token 500 (ErrorBody ''Failed to confirm booking'') (minted e))"
  assumes "find (\<lambda>x. b_id x = i) (bookings st) = Some b"
  shows "\<exists>k < length (bookings st). bookings st ! k = b \<and>
      confirm_booking gen e1 rq1 [(''id'', i)] st =
        Respond (answer e1) (st \<lparr> bookings := (bookings st)[k := confirmed (now e1)] \<rparr>) \<and>
      confirm_booking gen e2 rq2 [(''id'', i)]
          (st \<lparr> bookings := (bookings st)[k := confirmed (now e1)] \<rparr>) =
        Respond (answer e2) (st \<lparr> bookings := (bookings st)[k := confirmed (now e2)] \<rparr>) \<and>
      (x \<noteq> [] \<and>
       meth rq1 = POST \<and> path rq1 = [''api'', ''admin'', ''bookings'', x, ''confirm''] \<and>
       decode_param e1 (raw_path (path rq1)) \<noteq> None \<and> decode_param e1 x = Some i \<and>
       session_admin rq1 \<and> csrf_ok rq1 \<and> \<not> over_limit e1 \<and>
       meth rq2 = POST \<and> path rq2 = [''api'', ''admin'', ''bookings'', x, ''confirm''] \<and>
       decode_param e2 (raw_path (path rq2)) \<noteq> None \<and> decode_param e2 x = Some i \<and>
       session_admin rq2 \<and> csrf_ok rq2 \<and> \<not> over_limit e2 \<longrightarrow>
       app gen e2 rq2 (snd (app gen e1 rq1 st)) =
         (answer e2, st \<lparr> bookings := (bookings st)[k := confirmed (now e2)] \<rparr>))"
proof -
  let ?P = "\<lambda>x. map_of [(''id'', i)] ''id'' = Some (b_id x)"
  have P: "?P = (\<lambda>x. b_id x = i)" by auto
  from assms(3) obtain k where k: "findIndex ?P (bookings st) = Some k" "bookings st ! k = b"
    unfolding P find_findIndex by blast
  from findIndex_Some [OF k(1)] k(2) have len: "k < length (bookings st)" and id: "b_id b = i"
    by auto
  let ?st1 = "st \<lparr> bookings := (bookings st)[k := confirmed (now e1)] \<rparr>"
  let ?st2 = "st \<lparr> bookings := (bookings st)[k := confirmed (now e2)] \<rparr>"
  have first: "confirm_booking gen e1 rq1 [(''id'', i)] st = Respond (answer e1) ?st1"
    using k
    by (simp add: confirm_booking_def confirmed_def answer_def Let_def
        serialises_booking_confirmed)
  have "?P (confirmed (now e1))"
    using id by (simp add: confirmed_def)
  from findIndex_update [OF k(1) this]
  have k1: "findIndex ?P (bookings ?st1) = Some k" by simp
  have again: "(bookings ?st1 ! k) \<lparr> b_status := ''confirmed'', b_updatedAt := Some (now e2) \<rparr>
      = confirmed (now e2)"
    using len by (simp add: confirmed_def)
  have second: "confirm_booking gen e2 rq2 [(''id'', i)] ?st1 = Respond (answer e2) ?st2"
    unfolding confirm_booking_def k1 option.case Let_def again
    by (simp add: confirmed_def answer_def serialises_booking_confirmed)
  have served: "app gen e2 rq2 (snd (app gen e1 rq1 st)) = (answer e2, ?st2)"
    if "x \<noteq> []"
      "meth rq1 = POST" "path rq1 = [''api'', ''admin'', ''bookings'', x, ''confirm'']"
      "decode_param e1 (raw_path (path rq1)) \<noteq> None" "decode_param e1 x = Some i"
      "session_admin rq1" "csrf_ok rq1" "\<not> over_limit e1"
      "meth rq2 = POST" "path rq2 = [''api'', ''admin'', ''bookings'', x, ''confirm'']"
      "decode_param e2 (raw_path (path rq2)) \<noteq> None" "decode_param e2 x = Some i"
      "session_admin rq2" "csrf_ok rq2" "\<not> over_limit e2"
  proof -
    from app_confirm [OF that(2,3,1,4,5) first] that(6,7,8)
    have "snd (app gen e1 rq1 st) = ?st1" by simp
    with app_confirm [OF that(9,10,1,11,12) second] that(13,14,15) show ?thesis by simp
  qed
  from len k(2) first second served show ?thesis by blast
qed

text \<open>
  The first sample booking, pending under the identifier \<open>u\<close>, confirmed at two
  different times: the status is \<open>confirmed\<close> after both.
\<close>

theorem confirm_twice_witness:
  "find (\<lambda>x. b_id x = ''u'') (bookings sample_store) = Some (hd (bookings sample_store)) \<and>
   b_status (hd (bookings sample_store)) = ''pending'' \<and>
   confirm_booking sample_gen (sample_env \<lparr> now := 2000 \<rparr>)
       (post [''api'', ''admin'', ''bookings'', ''u'', ''confirm''] [] True True) [(''id'', ''u'')]
       (snd (app sample_gen sample_env
          (post [''api'', ''admin'', ''bookings'', ''u'', ''confirm''] [] True True)
          sample_store))
     = Respond (json_with_token 200
         (ABooking (hd (bookings sample_store)
            \<lparr> b_status := ''confirmed'', b_updatedAt := Some 2000 \<rparr>)) ''t1'')
        (sample_store \<lparr> bookings := (bookings sample_store)
           [0 := hd (bookings sample_store)
              \<lparr> b_status := ''confirmed'', b_updatedAt := Some 2000 \<rparr>] \<rparr>)"
proof -
  let ?rq = "post [''api'', ''admin'', ''bookings'', ''u'', ''confirm''] [] True True"
  let ?b = "hd (bookings sample_store)"
  let ?e2 = "sample_env \<lparr> now := 2000 \<rparr>"
  have found: "find (\<lambda>x. b_id x = ''u'') (bookings sample_store) = Some ?b"
    by (simp add: sample_defs)
  have pending: "b_status ?b = ''pending''"
    by (simp add: sample_defs)
  have fits: "serialises_booking (json_limit sample_env) ?b"
    "serialises_booking (json_limit ?e2) ?b"
    by (simp_all add: sample_defs serialises_booking_def booking_values_def serialises_def)
  have not_second: "bookings sample_store ! k = ?b \<Longrightarrow> k < length (bookings sample_store)
      \<Longrightarrow> k = 0" for k
    by (cases k) (simp_all add: sample_defs)
  from confirm_twice [OF found, of sample_gen sample_env ?rq ?e2 ?rq]
  obtain k where k: "k < length (bookings sample_store)" "bookings sample_store ! k = ?b"
    and first: "confirm_booking sample_gen sample_env ?rq [(''id'', ''u'')] sample_store =
        Respond
          (if serialises_booking (json_limit sample_env) ?b
           then json_with_token 200
             (ABooking (?b \<lparr> b_status := ''confirmed'', b_updatedAt := Some (now sample_env) \<rparr>))
             (minted sample_env)
           else json_with_token 500 (ErrorBody ''Failed to confirm booking'')
             (minted sample_env))
          (sample_store \<lparr> bookings := (bookings sample_store)
             [k := ?b \<lparr> b_status := ''confirmed'', b_updatedAt := Some (now sample_env) \<rparr>] \<rparr>)"
    and second: "confirm_booking sample_gen ?e2 ?rq [(''id'', ''u'')]
          (sample_store \<lparr> bookings := (bookings sample_store)
             [k := ?b \<lparr> b_status := ''confirmed'', b_updatedAt := Some (now sample_env) \<rparr>] \<rparr>) =
        Respond
          (if serialises_booking (json_limit ?e2) ?b
           then json_with_token 200
             (ABooking (?b \<lparr> b_status := ''confirmed'', b_updatedAt := Some (now ?e2) \<rparr>))
             (minted ?e2)
           else json_with_token 500 (ErrorBody ''Failed to confirm booking'') (minted ?e2))
          (sample_store \<lparr> bookings := (bookings sample_store)
             [k := ?b \<lparr> b_status := ''confirmed'', b_updatedAt := Some (now ?e2) \<rparr>] \<rparr>)"
    by blast
  from not_second [OF k(2,1)] have k0: "k = 0" .
  have "meth ?rq = POST" "path ?rq = [''api'', ''admin'', ''bookings'', ''u'', ''confirm'']"
    "''u'' \<noteq> []" "decode_param sample_env (raw_path (path ?rq)) \<noteq> None"
    "decode_param sample_env ''u'' = Some ''u''"
    by (simp_all add: post_def router_defs)
  from app_confirm [OF this first]
  have "snd (app sample_gen sample_env ?rq sample_store) =
      sample_store \<lparr> bookings := (bookings sample_store)
             [k := ?b \<lparr> b_status := ''confirmed'', b_updatedAt := Some (now sample_env) \<rparr>] \<rparr>"
    by (simp add: post_def sample_env_def)
  with second fits(2) k0 found pending show ?thesis
    by (simp add: sample_env_def)
qed

subsection \<open>Messages: the read flag and the list\<close>

text \<open>
  Claim C7: under every request the server handles (whatever its method and path, so in
  particular list, get-by-id, mark-read and contact submission), every message stays in
  the collection at its position and keeps its identifier, and a message that was read
  before the request is read after it.
\<close>

theorem read_flag_monotonic:
  fixes gen e rq st
  defines "st' \<equiv> snd (app gen e rq st)"
  shows "length (messages st) \<le> length (messages st') \<and>
         (\<forall>i < length (messages st).
            m_id (messages st' ! i) = m_id (messages st ! i) \<and>
            (m_read (messages st ! i) \<longrightarrow> m_read (messages st' ! i)))"
proof -
  let ?keeps = "\<lambda>s' :: store. length (messages st) \<le> length (messages s') \<and>
         (\<forall>i < length (messages st).
            m_id (messages s' ! i) = m_id (messages st ! i) \<and>
            (m_read (messages st ! i) \<longrightarrow> m_read (messages s' ! i)))"
  have same: "?keeps s'" if "messages s' = messages st" for s' :: store
    using that by simp
  have ids: "?keeps s'"
    if "map m_id (messages s') = map m_id (messages st) \<and>
        (\<forall>j < length (messages st). m_read (messages st ! j) \<longrightarrow> m_read (messages s' ! j))"
    for s' :: store
  proof -
    from that have len: "length (messages s') = length (messages st)"
      using map_eq_imp_length_eq by blast
    moreover have "m_id (messages s' ! i) = m_id (messages st ! i)"
      if "i < length (messages st)" for i
      using that \<open>_ \<and> _\<close> len by (metis nth_map)
    ultimately show ?thesis using that by simp
  qed
  from app_writers [of gen e rq st] show ?thesis
    unfolding st'_def writes_def
  proof (elim disjE exE)
    assume "snd (app gen e rq st) = st"
    then show "?keeps (snd (app gen e rq st))" by simp
  next
    fix ps r assume "confirm_booking gen e rq ps st = Respond r (snd (app gen e rq st))"
    from confirm_booking_effect [OF this] show "?keeps (snd (app gen e rq st))"
      by (intro same) simp
  next
    fix ps r assume "get_message gen e rq ps st = Respond r (snd (app gen e rq st))"
    from get_message_effect [OF this] show "?keeps (snd (app gen e rq st))"
      by (intro ids) simp
  next
    fix ps r assume "mark_read gen e rq ps st = Respond r (snd (app gen e rq st))"
    from mark_read_effect [OF this] show "?keeps (snd (app gen e rq st))"
      by (intro ids) simp
  next
    fix ps r assume "submit_contact gen e rq ps st = Respond r (snd (app gen e rq st))"
    from submit_contact_effect [OF this] show "?keeps (snd (app gen e rq st))"
      by (auto simp: nth_append)
  next
    fix ps r assume "submit_booking gen e rq ps st = Respond r (snd (app gen e rq st))"
    from submit_booking_effect [OF this] show "?keeps (snd (app gen e rq st))"
      by (intro same) simp
  qed
qed

text \<open>
  The second sample message is read; after the admin fetches the first one (which
  marks that one read) it still is, under the same identifier.
\<close>

theorem read_flag_monotonic_witness:
  "1 < length (messages sample_store) \<and> m_read (messages sample_store ! 1) \<and>
   \<not> m_read (messages sample_store ! 0) \<and>
   m_read (messages (snd (app sample_gen sample_env
     (admin_get [''api'', ''admin'', ''messages'', ''uuu''] []) sample_store)) ! 0) \<and>
   m_read (messages (snd (app sample_gen sample_env
     (admin_get [''api'', ''admin'', ''messages'', ''uuu''] []) sample_store)) ! 1) \<and>
   m_id (messages (snd (app sample_gen sample_env
     (admin_get [''api'', ''admin'', ''messages'', ''uuu''] []) sample_store)) ! 1)
     = m_id (messages sample_store ! 1)"
proof -
  let ?rq = "admin_get [''api'', ''admin'', ''messages'', ''uuu''] []"
  have before: "1 < length (messages sample_store)" "m_read (messages sample_store ! 1)"
    "\<not> m_read (messages sample_store ! 0)"
    by (simp_all add: sample_defs)
  have first: "m_read (messages (snd (app sample_gen sample_env ?rq sample_store)) ! 0)"
    by (simp add: app_def layers_def middleware_defs lower_literals sample_defs response_defs
        router_defs get_message_def Let_def serialises_message_def serialises_def)
  from read_flag_monotonic [of sample_store sample_gen sample_env ?rq] before(1,2)
  have "m_id (messages (snd (app sample_gen sample_env ?rq sample_store)) ! 1)
          = m_id (messages sample_store ! 1) \<and>
        m_read (messages (snd (app sample_gen sample_env ?rq sample_store)) ! 1)"
    by blast
  with before first show ?thesis by simp
qed

text \<open>
  Claim C8, as amended: the list-messages handler selects the messages that are not
  archived, or all of them when \<^verbatim>\<open>includeArchived=true\<close>, and of those only the unread
  ones when \<^verbatim>\<open>unread=true\<close> (with no query parameters: every message whose \<open>archived\<close>
  flag is false), and sorts them by received timestamp, latest first. It answers 200
  with exactly this list when every message on it serialises, and 500 with
  \<^verbatim>\<open>Failed to fetch messages\<close> when one does not (its subject is nested too deeply). The
  collections are left as they are. An authenticated admin's GET to
  \<^verbatim>\<open>/api/admin/messages\<close> within the rate limit gets this response (unless a file of
  that name exists under \<^verbatim>\<open>public/\<close>).
\<close>

theorem list_messages_filtered_sorted:
  "\<exists>ms. sorted_wrt (\<lambda>a b. m_date b \<le> m_date a) ms \<and>
      mset ms = mset (filter
        (\<lambda>m. (if query rq ''includeArchived'' = JStr ''true'' then True else \<not> m_archived m) \<and>
              (if query rq ''unread'' = JStr ''true'' then \<not> m_read m else True))
        (messages st)) \<and>
      ((\<forall>k. query rq k = JUndefined) \<longrightarrow>
         mset ms = mset (filter (\<lambda>m. \<not> m_archived m) (messages st))) \<and>
      list_messages gen e rq ps st =
        Respond (if list_all (serialises_message (json_limit e)) ms
                 then json 200 (MessageList ms)
                 else json 500 (ErrorBody ''Failed to fetch messages'')) st \<and>
      (meth rq = GET \<and> path rq = [''api'', ''admin'', ''messages''] \<and> session_admin rq \<and>
       \<not> over_limit e \<and> \<not> public_file e \<longrightarrow>
         app gen e rq st =
           (if list_all (serialises_message (json_limit e)) ms
            then json 200 (MessageList ms)
            else json 500 (ErrorBody ''Failed to fetch messages''), st))"
proof -
  let ?shown = "if query rq ''includeArchived'' \<noteq> JStr ''true''
      then filter (\<lambda>m. \<not> m_archived m) (messages st) else messages st"
  let ?wanted = "if query rq ''unread'' = JStr ''true''
      then filter (\<lambda>m. \<not> m_read m) ?shown else ?shown"
  let ?ms = "js_sort (\<lambda>a b. m_date b - m_date a) ?wanted"
  let ?r = "if list_all (serialises_message (json_limit e)) ?ms
            then json 200 (MessageList ?ms)
            else json 500 (ErrorBody ''Failed to fetch messages'')"
  have run: "list_messages gen e rq qs st = Respond ?r st" for qs
    by (simp add: list_messages_def Let_def)
  have sorted: "sorted_wrt (\<lambda>a b. m_date b \<le> m_date a) ?ms"
    by (rule sorted_js_sort_desc)
  have "?wanted = filter
        (\<lambda>m. (if query rq ''includeArchived'' = JStr ''true'' then True else \<not> m_archived m) \<and>
              (if query rq ''unread'' = JStr ''true'' then \<not> m_read m else True))
        (messages st)"
    by simp
  then have exact: "mset ?ms = mset (filter
        (\<lambda>m. (if query rq ''includeArchived'' = JStr ''true'' then True else \<not> m_archived m) \<and>
              (if query rq ''unread'' = JStr ''true'' then \<not> m_read m else True))
        (messages st))"
    by (simp only: mset_js_sort)
  have plain: "mset ?ms = mset (filter (\<lambda>m. \<not> m_archived m) (messages st))"
    if "\<forall>k. query rq k = JUndefined"
  proof -
    from that have "?wanted = filter (\<lambda>m. \<not> m_archived m) (messages st)"
      by simp
    then show ?thesis by (simp only: mset_js_sort)
  qed
  have served: "app gen e rq st = (?r, st)"
    if "meth rq = GET" "path rq = [''api'', ''admin'', ''messages'']" "session_admin rq"
      "\<not> over_limit e" "\<not> public_file e"
    using app_list_messages [OF that(1,2) run [of "[]"]] that(3,4,5) by simp
  from run [of ps] sorted exact plain served show ?thesis
    by (intro exI [of _ ?ms]) blast
qed

text \<open>
  On the sample data, with no query parameters, an admin gets both sample messages, the
  later one first.
\<close>

theorem list_messages_witness:
  "query (admin_get [''api'', ''admin'', ''messages''] []) ''unread'' = JUndefined \<and>
   (\<exists>ms. app sample_gen sample_env (admin_get [''api'', ''admin'', ''messages''] [])
          sample_store = (json 200 (MessageList ms), sample_store) \<and>
        sorted_wrt (\<lambda>a b. m_date b \<le> m_date a) ms \<and>
        mset ms = mset (messages sample_store))"
proof -
  let ?rq = "admin_get [''api'', ''admin'', ''messages''] []"
  have none: "\<forall>k. query ?rq k = JUndefined"
    by (simp add: admin_get_def fields_def)
  have gate: "meth ?rq = GET \<and> path ?rq = [''api'', ''admin'', ''messages''] \<and>
      session_admin ?rq \<and> \<not> over_limit sample_env \<and> \<not> public_file sample_env"
    by (simp add: admin_get_def sample_env_def)
  have all_shown: "filter (\<lambda>m. \<not> m_archived m) (messages sample_store) = messages sample_store"
    by (simp add: sample_defs)
  have fit: "\<forall>m \<in> set (messages sample_store). serialises_message (json_limit sample_env) m"
    by (simp add: sample_defs serialises_message_def serialises_def)
  from list_messages_filtered_sorted [of ?rq sample_store sample_gen sample_env "[]"]
    none gate all_shown
  obtain ms where ms: "sorted_wrt (\<lambda>a b. m_date b \<le> m_date a) ms"
    "mset ms = mset (messages sample_store)"
    "app sample_gen sample_env ?rq sample_store =
       (if list_all (serialises_message (json_limit sample_env)) ms
        then json 200 (MessageList ms)
        else json 500 (ErrorBody ''Failed to fetch messages''), sample_store)"
    by auto
  from ms(2) have "set ms = set (messages sample_store)" by (rule mset_eq_setD)
  with fit have "list_all (serialises_message (json_limit sample_env)) ms"
    by (simp add: list_all_iff)
  with ms none show ?thesis by auto
qed

text \<open>
  Claim C8 as stated fails on a state the server can reach. After a contact submission
  whose subject is nested 6000 arrays deep (answered 500, but stored), on an engine
  that serialises 5000 levels, the collection holds three messages, none archived, and
  the admin's request for the list is answered 500 with \<^verbatim>\<open>Failed to fetch messages\<close>.
\<close>

theorem list_messages_counterexample:
  "reachable sample_gen
     (snd (app sample_gen sample_env
        (post [''api'', ''submit-contact''] deep_contact_form False True) sample_store)) \<and>
   length (filter (\<lambda>m. \<not> m_archived m)
     (messages (snd (app sample_gen sample_env
        (post [''api'', ''submit-contact''] deep_contact_form False True) sample_store)))) = 3 \<and>
   fst (app sample_gen sample_env (admin_get [''api'', ''admin'', ''messages''] [])
     (snd (app sample_gen sample_env
        (post [''api'', ''submit-contact''] deep_contact_form False True) sample_store)))
     = \<lparr> status = 500, headers = [], payload = ErrorBody ''Failed to fetch messages'',
         csrfToken = None \<rparr>"
proof -
  let ?st = "snd (app sample_gen sample_env
        (post [''api'', ''submit-contact''] deep_contact_form False True) sample_store)"
  let ?deep = "\<lparr> m_id = ''uuuuu'', m_name = ''Ann'', m_email = ''ann@example.com'',
       m_phone = Some [], m_subject = nest 6000 (JStr ''x''), m_message = ''Hello'',
       m_date = 1000, m_read = False, m_archived = False, m_readAt = None \<rparr>"
  have "reachable sample_gen ?st"
    using sample_store_reachable by (rule reachable.request)
  moreover have st: "?st = sample_store
      \<lparr> messages := messages sample_store @ [?deep], drawn := Suc (drawn sample_store) \<rparr>"
    by (simp add: app_def layers_def middleware_defs lower_literals sample_defs response_defs
        router_defs submit_contact_def contact_form_def deep_contact_form_def js_or_def
        truthy_nest stringifies_def join_depth_nest trim_def js_whitespace_def)
  moreover have "length (filter (\<lambda>m. \<not> m_archived m) (messages sample_store @ [?deep])) = 3"
    by (simp add: sample_defs)
  moreover have "fst (app sample_gen sample_env (admin_get [''api'', ''admin'', ''messages''] [])
      (sample_store \<lparr> messages := messages sample_store @ [?deep],
         drawn := Suc (drawn sample_store) \<rparr>))
     = \<lparr> status = 500, headers = [], payload = ErrorBody ''Failed to fetch messages'',
         csrfToken = None \<rparr>"
    by (simp add: app_def layers_def middleware_defs lower_literals sample_defs response_defs
        router_defs list_messages_def Let_def js_sort_def serialises_message_def serialises_def
        json_depth_nest)
  ultimately show ?thesis by simp
qed

subsection \<open>The confirmation email, and empty fields\<close>




text \<open>
  Claim C10: a required field that is present but equal to the empty string is treated
  as missing. A contact submission with an empty name, email or message, and a booking
  submission with any of its nine required fields empty, is answered by its handler
  with 400 and appends no record, which is the handler's outcome when that field is
  removed from the submission. The running server leaves the collections unchanged and
  answers the request as it answers the one without the field; that answer is the 400
  once the request is past the rate limiter and the token check.
\<close>

theorem empty_required_field_rejected:
  fixes rq :: request and k :: string
  defines "without \<equiv> rq \<lparr> body := (body rq)(k := JUndefined) \<rparr>"
  shows
  "(k \<in> {''name'', ''email'', ''message''} \<and> body rq k = JStr [] \<longrightarrow>
      (\<exists>r. status r = 400 \<and> submit_contact gen e rq ps st = Respond r st \<and>
           submit_contact gen e without ps st = Respond r st \<and>
           (meth rq = POST \<and> path rq = [''api'', ''submit-contact''] \<longrightarrow>
              snd (app gen e rq st) = st \<and>
              app gen e rq st = app gen e without st \<and>
              (csrf_ok rq \<and> \<not> over_limit e \<longrightarrow> fst (app gen e rq st) = r)))) \<and>
   (k \<in> set booking_required \<and> body rq k = JStr [] \<longrightarrow>
      (\<exists>r. status r = 400 \<and> submit_booking gen e rq ps st = Respond r st \<and>
           submit_booking gen e without ps st = Respond r st \<and>
           (meth rq = POST \<and> path rq = [''submit-booking''] \<longrightarrow>
              snd (app gen e rq st) = st \<and>
              app gen e rq st = app gen e without st \<and>
              (csrf_ok rq \<longrightarrow> fst (app gen e rq st) = r))))"
proof (intro conjI impI)
  assume a: "k \<in> {''name'', ''email'', ''message''} \<and> body rq k = JStr []"
  let ?r = "json_with_token 400
              (Outcome False ''Missing required fields (name, email, message)'') (minted e)"
  from a have run: "submit_contact gen e rq qs st = Respond ?r st" for qs
    by (auto simp: submit_contact_def)
  from a have gone: "submit_contact gen e without qs st = Respond ?r st" for qs
    by (auto simp: submit_contact_def without_def)
  have "snd (app gen e rq st) = st \<and> app gen e rq st = app gen e without st \<and>
        (csrf_ok rq \<and> \<not> over_limit e \<longrightarrow> fst (app gen e rq st) = ?r)"
    if "meth rq = POST \<and> path rq = [''api'', ''submit-contact'']"
  proof -
    from that have "meth without = POST" "path without = [''api'', ''submit-contact'']"
      "csrf_ok without = csrf_ok rq"
      by (simp_all add: without_def)
    with app_submit_contact [OF _ _ run [of "[]"]]
      app_submit_contact [OF _ _ gone [of "[]"]] that
    show ?thesis by simp
  qed
  moreover have "status ?r = 400" by (simp add: json_with_token_def)
  ultimately show "\<exists>r. status r = 400 \<and> submit_contact gen e rq ps st = Respond r st \<and>
           submit_contact gen e without ps st = Respond r st \<and>
           (meth rq = POST \<and> path rq = [''api'', ''submit-contact''] \<longrightarrow>
              snd (app gen e rq st) = st \<and>
              app gen e rq st = app gen e without st \<and>
              (csrf_ok rq \<and> \<not> over_limit e \<longrightarrow> fst (app gen e rq st) = r))"
    using run [of ps] gone [of ps] by blast
next
  assume a: "k \<in> set booking_required \<and> body rq k = JStr []"
  let ?r = "json_with_token 400 (Outcome False ''Missing required fields'') (minted e)"
  from a have k: "k \<in> set booking_required" and falsy: "\<not> truthy (body rq k)"
    by simp_all
  have run: "submit_booking gen e rq qs st = Respond ?r st" for qs
    using k falsy by (rule submit_booking_missing)
  have "\<not> truthy (body without k)" by (simp add: without_def)
  with k have gone: "submit_booking gen e without qs st = Respond ?r st" for qs
    by (rule submit_booking_missing)
  have "snd (app gen e rq st) = st \<and> app gen e rq st = app gen e without st \<and>
        (csrf_ok rq \<longrightarrow> fst (app gen e rq st) = ?r)"
    if "meth rq = POST \<and> path rq = [''submit-booking'']"
  proof -
    from that have "meth without = POST" "path without = [''submit-booking'']"
      "csrf_ok without = csrf_ok rq"
      by (simp_all add: without_def)
    with app_submit_booking [OF _ _ run [of "[]"]]
      app_submit_booking [OF _ _ gone [of "[]"]] that
    show ?thesis by simp
  qed
  moreover have "status ?r = 400" by (simp add: json_with_token_def)
  ultimately show "\<exists>r. status r = 400 \<and> submit_booking gen e rq ps st = Respond r st \<and>
           submit_booking gen e without ps st = Respond r st \<and>
           (meth rq = POST \<and> path rq = [''submit-booking''] \<longrightarrow>
              snd (app gen e rq st) = st \<and>
              app gen e rq st = app gen e without st \<and>
              (csrf_ok rq \<longrightarrow> fst (app gen e rq st) = r))"
    using run [of ps] gone [of ps] by blast
qed

text \<open>
  The sample forms with one field emptied (the contact form's email, the booking
  form's location), sent with a valid token: 400, and the collections as before.
\<close>

theorem empty_required_field_witness:
  "body (post [''api'', ''submit-contact''] ((''email'', JStr '''') # contact_form) False True)
     ''email'' = JStr [] \<and>
   app sample_gen sample_env
     (post [''api'', ''submit-contact''] ((''email'', JStr '''') # contact_form) False True)
     sample_store
     = (json_with_token 400 (Outcome False ''Missing required fields (name, email, message)'')
          ''t1'', sample_store) \<and>
   ''location'' \<in> set booking_required \<and>
   body (post [''submit-booking''] ((''location'', JStr '''') # booking_form) False True)
     ''location'' = JStr [] \<and>
   app sample_gen sample_env
     (post [''submit-booking''] ((''location'', JStr '''') # booking_form) False True)
     sample_store
     = (json_with_token 400 (Outcome False ''Missing required fields'') ''t1'', sample_store)"
proof -
  let ?rc = "post [''api'', ''submit-contact''] ((''email'', JStr '''') # contact_form) False True"
  let ?rb = "post [''submit-booking''] ((''location'', JStr '''') # booking_form) False True"
  have c: "''email'' \<in> {''name'', ''email'', ''message''} \<and> body ?rc ''email'' = JStr []"
    "meth ?rc = POST \<and> path ?rc = [''api'', ''submit-contact''] \<and> csrf_ok ?rc \<and>
       \<not> over_limit sample_env"
    by (simp_all add: post_def fields_def sample_env_def)
  have b: "''location'' \<in> set booking_required \<and> body ?rb ''location'' = JStr []"
    "meth ?rb = POST \<and> path ?rb = [''submit-booking''] \<and> csrf_ok ?rb"
    by (simp_all add: post_def fields_def booking_required_def)
  from empty_required_field_rejected [of "''email''" ?rc sample_gen sample_env "[]" sample_store] c
  obtain r where r: "submit_contact sample_gen sample_env ?rc [] sample_store
      = Respond r sample_store"
    "app sample_gen sample_env ?rc sample_store = (r, sample_store)"
    by (metis prod.collapse)
  from r(1) c(1) have r_eq: "r = json_with_token 400
      (Outcome False ''Missing required fields (name, email, message)'') ''t1''"
    by (simp add: submit_contact_def sample_env_def)
  from empty_required_field_rejected [of "''location''" ?rb sample_gen sample_env "[]" sample_store] b
  obtain r' where r': "submit_booking sample_gen sample_env ?rb [] sample_store
      = Respond r' sample_store"
    "app sample_gen sample_env ?rb sample_store = (r', sample_store)"
    by (metis prod.collapse)
  from r'(1) b(1) have r'_eq: "r' = json_with_token 400
      (Outcome False ''Missing required fields'') ''t1''"
    by (simp add: submit_booking_def sample_env_def)
  from c(1) b(1) r(2) r_eq r'(2) r'_eq show ?thesis by simp
qed

end
